theory Spec2Isabelle
  imports Main "HOL-Library.Word"
begin

unbundle bit_operations_syntax

section \<open>Data model of the Windows backend (libusb/os/windows\_usb.c)\<close>

text \<open>
  The return codes of \<open>enum libusb_error\<close>.  Functions that return an \<open>int\<close> holding
  either a negative error code or a non-negative count are modelled with a sum type,
  \<open>Inl\<close> carrying the error.
\<close>

datatype libusb_error =
    LIBUSB_SUCCESS
  | LIBUSB_ERROR_IO
  | LIBUSB_ERROR_INVALID_PARAM
  | LIBUSB_ERROR_ACCESS
  | LIBUSB_ERROR_NO_DEVICE
  | LIBUSB_ERROR_NOT_FOUND
  | LIBUSB_ERROR_BUSY
  | LIBUSB_ERROR_TIMEOUT
  | LIBUSB_ERROR_OVERFLOW
  | LIBUSB_ERROR_PIPE
  | LIBUSB_ERROR_INTERRUPTED
  | LIBUSB_ERROR_NO_MEM
  | LIBUSB_ERROR_NOT_SUPPORTED
  | LIBUSB_ERROR_OTHER

text \<open>
  The backend identifiers, in the order of the rows of the table \<open>usb_api_backend\<close>
  (the table is indexed by the identifier, so the row order is the numeric order).
\<close>

datatype usb_api =
    USB_API_UNSUPPORTED
  | USB_API_HUB
  | USB_API_COMPOSITE
  | USB_API_WINUSBX
  | USB_API_HID

fun api_index :: "usb_api \<Rightarrow> nat" where
  "api_index USB_API_UNSUPPORTED = 0"
| "api_index USB_API_HUB = 1"
| "api_index USB_API_COMPOSITE = 2"
| "api_index USB_API_WINUSBX = 3"
| "api_index USB_API_HID = 4"

type_synonym byte = "8 word"

text \<open>
  One element of \<open>priv->usb_interface[]\<close>.  A \<open>char *\<close> that may be \<open>NULL\<close> is a
  \<open>string option\<close>; the string holds the characters before the terminating NUL.
\<close>

record usb_interface_priv =
  path :: "string option"
  apib :: usb_api
  sub_api :: int
  nb_endpoints :: nat
  endpoint :: "byte list option"
  restricted_functionality :: bool

record hid_device_priv =
  nb_interfaces :: nat

text \<open>The fields of \<open>USB_DEVICE_DESCRIPTOR\<close> that the backend writes itself.\<close>

record usb_device_descriptor =
  bLength :: byte
  bDescriptorType :: byte
  bDeviceClass :: byte
  idVendor :: "16 word"
  idProduct :: "16 word"
  bNumConfigurations :: byte

text \<open>
  \<open>struct libusb_device\<close> (the fields the backend touches) and its private part
  \<open>struct windows_device_priv\<close>.  \<open>parent_dev\<close> is a pointer in the source; the model
  keeps the session identifier of the parent.  \<open>config_descriptor\<close> is a pointer to an
  array of pointers: \<open>None\<close> is the \<open>NULL\<close> array, an entry \<open>None\<close> a \<open>NULL\<close> blob.
  The fixed array \<open>usb_interface[USB_MAXINTERFACES]\<close> is a list whose length is the
  constant \<open>USB_MAXINTERFACES\<close>.
\<close>

datatype libusb_speed =
    LIBUSB_SPEED_UNKNOWN
  | LIBUSB_SPEED_LOW
  | LIBUSB_SPEED_FULL
  | LIBUSB_SPEED_HIGH
  | LIBUSB_SPEED_SUPER

record libusb_device =
  session_data :: nat
  bus_number :: byte
  port_number :: byte
  device_address :: byte
  num_configurations :: byte
  speed :: libusb_speed
  parent_dev :: "nat option"

record windows_device_priv =
  depth :: byte
  port :: byte
  active_config :: byte
  dev_apib :: usb_api
  dev_sub_api :: int
  dev_path :: "string option"
  device_id :: "string option"
  usb_interface :: "usb_interface_priv list"
  hid :: "hid_device_priv option"
  dev_descriptor :: usb_device_descriptor
  config_descriptor :: "byte list option list option"

subsection \<open>Memory primitives\<close>

text \<open>
  \<open>memcpy(dst, src, n)\<close> on buffers of known extent.  Copying more than either buffer
  holds is undefined behaviour in C; the model returns \<open>None\<close> there.
\<close>

definition memcpy :: "byte list \<Rightarrow> byte list \<Rightarrow> nat \<Rightarrow> byte list option" where
  "memcpy dst src n =
     (if n \<le> length src \<and> n \<le> length dst then Some (take n src @ drop n dst) else None)"

subsection \<open>Cached configuration descriptors\<close>

text \<open>
  \<open>config_header->wTotalLength\<close>: the 16-bit little-endian field at offset 2 of a
  configuration descriptor.  A blob too short to hold the field cannot be read.
\<close>

definition wTotalLength :: "byte list \<Rightarrow> nat option" where
  "wTotalLength blob =
     (if 4 \<le> length blob then Some (unat (blob ! 2) + 256 * unat (blob ! 3)) else None)"

text \<open>
  \<open>windows_get_config_descriptor\<close>.  The result is \<open>None\<close> when the source would read
  or write outside an object; otherwise the returned \<open>int\<close> (error or byte count) and
  the caller's buffer after the call.
\<close>

definition windows_get_config_descriptor ::
  "libusb_device \<Rightarrow> windows_device_priv \<Rightarrow> byte \<Rightarrow> byte list \<Rightarrow> nat
     \<Rightarrow> ((libusb_error + nat) \<times> byte list) option" where
  "windows_get_config_descriptor dev priv config_index buffer len =
     (if config_index \<ge> num_configurations dev then Some (Inl LIBUSB_ERROR_INVALID_PARAM, buffer)
      else case config_descriptor priv of
        None \<Rightarrow> Some (Inl LIBUSB_ERROR_NOT_FOUND, buffer)
      | Some descs \<Rightarrow>
          if unat config_index \<ge> length descs then None
          else case descs ! unat config_index of
            None \<Rightarrow> Some (Inl LIBUSB_ERROR_NOT_FOUND, buffer)
          | Some blob \<Rightarrow>
              (case wTotalLength blob of
                 None \<Rightarrow> None
               | Some wtl \<Rightarrow>
                   let size = min wtl len in
                   if len > length buffer then None
                   else case memcpy buffer blob size of
                     None \<Rightarrow> None
                   | Some buffer' \<Rightarrow> Some (Inr size, buffer')))"

text \<open>
  What \<open>cache_config_descriptors\<close> stores: a blob of exactly \<open>wTotalLength\<close> bytes
  (it allocates \<open>wTotalLength\<close> bytes and copies as many), at least a descriptor header.
\<close>

definition cached_blob_ok :: "byte list \<Rightarrow> bool" where
  "cached_blob_ok blob = (wTotalLength blob = Some (length blob))"

subsection \<open>Host controllers and bus numbers\<close>

text \<open>
  The global table \<open>char *host_controller[MAX_USB_HOST_CONTROLLERS]\<close> is a list of
  optional strings whose length is the constant \<open>MAX_USB_HOST_CONTROLLERS\<close> (declared
  in a header outside this file).  \<open>hc_scan\<close> is the \<open>for\<close> loop of
  \<open>force_hcd_device_descriptor\<close>: it stops at the first \<open>NULL\<close> entry, which it
  fills with the result \<open>dup\<close> of \<open>_strdup\<close> (\<open>None\<close> if that allocation failed), or
  at the first entry equal to the identifier; otherwise it runs off the end.
\<close>

function hc_scan ::
  "string option list \<Rightarrow> string \<Rightarrow> string option \<Rightarrow> nat \<Rightarrow> nat \<times> string option list" where
  "hc_scan hc hcd_device_id dup index =
     (if index < length hc then
        (case hc ! index of
           None \<Rightarrow> (index, hc[index := dup])
         | Some s \<Rightarrow>
             if s = hcd_device_id then (index, hc)
             else hc_scan hc hcd_device_id dup (index + 1))
      else (index, hc))"
  by pat_completeness auto
termination
  by (relation "measure (\<lambda>(hc, i, d, index). length hc - index)") auto

declare hc_scan.simps [simp del]

text \<open>
  What the operating system and the C library answer during
  \<open>force_hcd_device_descriptor\<close>: the instance id of the root hub's parent (the host
  controller), whether \<open>_strdup\<close> succeeds, and what \<open>sscanf\<close> extracts from the id
  (\<open>None\<close> unless it converts both fields).
\<close>

record hcd_os =
  get_parent_device_id :: "string option"
  strdup_ok :: bool
  sscanf_ven_dev :: "(32 word \<times> 32 word) option"

definition force_hcd_device_descriptor ::
  "hcd_os \<Rightarrow> string option list \<Rightarrow> libusb_device \<Rightarrow> windows_device_priv
     \<Rightarrow> libusb_error \<times> libusb_device \<times> windows_device_priv \<times> string option list" where
  "force_hcd_device_descriptor os hc dev priv =
     (case get_parent_device_id os of
        None \<Rightarrow> (LIBUSB_ERROR_NOT_FOUND, dev, priv, hc)
      | Some hcd_device_id \<Rightarrow>
          let (index, hc') =
                hc_scan hc hcd_device_id (if strdup_ok os then Some hcd_device_id else None) 0
          in
          if index = length hc' then (LIBUSB_ERROR_NO_DEVICE, dev, priv, hc')
          else if hc' ! index = None then (LIBUSB_ERROR_NO_DEVICE, dev, priv, hc')
          else
            let dev' = dev\<lparr>bus_number := of_nat (index + 1), num_configurations := 1\<rparr>;
                d = (dev_descriptor priv)\<lparr>bLength := 18, bDescriptorType := 1,
                      bNumConfigurations := 1, bDeviceClass := 9\<rparr>;
                d' = (case sscanf_ven_dev os of
                        Some (vid, pid) \<Rightarrow> d\<lparr>idVendor := ucast vid, idProduct := ucast pid\<rparr>
                      | None \<Rightarrow> d\<lparr>idVendor := 0x1d6b, idProduct := 1\<rparr>)
            in (LIBUSB_SUCCESS, dev', priv\<lparr>active_config := 1, dev_descriptor := d'\<rparr>, hc'))"

text \<open>
  \<open>first_at hc hcid k\<close>: slot \<open>k\<close> of the table holds the controller \<open>hcid\<close> and every
  slot before it holds some other controller.  \<open>hc_run\<close> is the table after a sequence
  of further calls of \<open>force_hcd_device_descriptor\<close>, each with its own answers of the
  operating system and its own device.
\<close>

definition first_at :: "string option list \<Rightarrow> string \<Rightarrow> nat \<Rightarrow> bool" where
  "first_at hc hcid k =
     (k < length hc \<and> hc ! k = Some hcid \<and> (\<forall>j<k. hc ! j \<noteq> None \<and> hc ! j \<noteq> Some hcid))"

fun hc_run ::
  "string option list \<Rightarrow> (hcd_os \<times> libusb_device \<times> windows_device_priv) list
     \<Rightarrow> string option list" where
  "hc_run hc [] = hc"
| "hc_run hc ((os, dev, priv) # rest) =
     hc_run (snd (snd (snd (force_hcd_device_descriptor os hc dev priv)))) rest"

subsection \<open>Device initialisation\<close>

text \<open>
  \<open>USB_NODE_CONNECTION_INFORMATION_EX\<close> as the hub driver fills it: whether a device
  is connected on the port, its descriptor, configuration value, address (a 16-bit
  field, the source compares it with \<open>UINT8_MAX\<close>) and speed.
\<close>

record usb_node_connection_information_ex =
  DeviceConnected :: bool
  DeviceDescriptor :: usb_device_descriptor
  CurrentConfigurationValue :: byte
  DeviceAddress :: "16 word"
  Speed :: byte

text \<open>
  What the operating system answers to \<open>init_device\<close> for a non-root device: whether
  the parent hub can be opened, the connection information (\<open>None\<close> when the request
  fails), and the outcome of \<open>cache_config_descriptors\<close> for the announced number of
  configurations (its return code and the descriptor array it leaves behind).
\<close>

record hub_os =
  CreateFileA_ok :: bool
  conn_info :: "usb_node_connection_information_ex option"
  cache_config_descriptors :: "byte \<Rightarrow> libusb_error \<times> byte list option list option"

text \<open>
  \<open>usbi_sanitize_device\<close> belongs to the library core (outside this file):
  it takes the number of configurations from the device descriptor, unless that exceeds
  \<open>USB_MAXCONFIG = 8\<close>.  \<open>init_device\<close> ignores its return value.
\<close>

definition usbi_sanitize_device :: "windows_device_priv \<Rightarrow> libusb_device \<Rightarrow> libusb_device" where
  "usbi_sanitize_device priv dev =
     (if bNumConfigurations (dev_descriptor priv) > 8 then dev
      else dev\<lparr>num_configurations := bNumConfigurations (dev_descriptor priv)\<rparr>)"

definition speed_of :: "byte \<Rightarrow> libusb_speed \<Rightarrow> libusb_speed" where
  "speed_of s old =
     (if s = 0 then LIBUSB_SPEED_LOW else if s = 1 then LIBUSB_SPEED_FULL
      else if s = 2 then LIBUSB_SPEED_HIGH else if s = 3 then LIBUSB_SPEED_SUPER else old)"

text \<open>
  \<open>init_device\<close>.  The parent device is passed with its private part; \<open>port_no\<close> is
  the parameter \<open>port_number\<close>.  The address assignment is the source's
  \<open>dev->device_address = (uint8_t)conn_info.DeviceAddress + 1\<close>: the 16-bit address is
  cut to 8 bits, one is added, and the sum is stored in an 8-bit field.
\<close>

definition init_device_connected ::
  "hub_os \<Rightarrow> usb_node_connection_information_ex \<Rightarrow> libusb_device \<Rightarrow> libusb_device
     \<Rightarrow> windows_device_priv \<Rightarrow> libusb_device \<times> windows_device_priv" where
  \<comment> \<open>the tail of the non-root branch, from the \<open>memcpy\<close> of the device descriptor on\<close>
  "init_device_connected os ci parent_d dev1 priv1 =
     (let priv2 = priv1\<lparr>dev_descriptor := DeviceDescriptor ci,
                   active_config := CurrentConfigurationValue ci\<rparr>;
          dev2 = dev1\<lparr>num_configurations := bNumConfigurations (DeviceDescriptor ci)\<rparr>;
          (res, descs) = cache_config_descriptors os (num_configurations dev2);
          priv3 = priv2\<lparr>config_descriptor := descs\<rparr>;
          dev3 = (if res \<noteq> LIBUSB_SUCCESS then dev2\<lparr>num_configurations := 0\<rparr> else dev2);
          priv4 = (if res \<noteq> LIBUSB_SUCCESS
                   then priv3\<lparr>dev_descriptor :=
                          (dev_descriptor priv3)\<lparr>bNumConfigurations := 0\<rparr>\<rparr>
                   else priv3);
          dev4 = dev3\<lparr>device_address := (ucast (DeviceAddress ci) :: byte) + 1\<rparr>;
          dev5 = dev4\<lparr>speed := speed_of (Speed ci) (speed dev4)\<rparr>;
          dev6 = dev5\<lparr>parent_dev := Some (session_data parent_d)\<rparr>
      in (usbi_sanitize_device priv4 dev6, priv4))"

definition init_device ::
  "hub_os \<Rightarrow> hcd_os \<Rightarrow> string option list \<Rightarrow> libusb_device \<Rightarrow> windows_device_priv
     \<Rightarrow> (libusb_device \<times> windows_device_priv) option \<Rightarrow> byte
     \<Rightarrow> libusb_error \<times> libusb_device \<times> windows_device_priv \<times> string option list" where
  "init_device os hos hc dev priv parent port_no =
     (if port_no = 0 then
        (case parent of
           Some p \<Rightarrow> (LIBUSB_ERROR_OTHER, dev, priv, hc)
         | None \<Rightarrow>
             let dev1 = dev\<lparr>device_address := 1, port_number := 0\<rparr>;
                 priv1 = priv\<lparr>port := 0, depth := 0\<rparr>;
                 (r, dev2, priv2, hc2) = force_hcd_device_descriptor hos hc dev1 priv1
             in if bus_number dev2 = 0 then (LIBUSB_ERROR_NOT_FOUND, dev2, priv2, hc2)
                else (LIBUSB_SUCCESS, usbi_sanitize_device priv2 dev2, priv2, hc2))
      else
        (case parent of
           None \<Rightarrow> (LIBUSB_ERROR_NOT_FOUND, dev, priv, hc)
         | Some (parent_d, parent_priv) \<Rightarrow>
             if dev_apib parent_priv \<noteq> USB_API_HUB then (LIBUSB_ERROR_NOT_FOUND, dev, priv, hc)
             else if bus_number parent_d = 0 then (LIBUSB_ERROR_NOT_FOUND, dev, priv, hc)
             else
               let dev1 = dev\<lparr>bus_number := bus_number parent_d, port_number := port_no\<rparr>;
                   priv1 = priv\<lparr>port := port_no, depth := depth parent_priv + 1\<rparr>
               in
               if device_address dev1 \<noteq> 0 then
                 (LIBUSB_SUCCESS, dev1\<lparr>parent_dev := Some (session_data parent_d)\<rparr>, priv1, hc)
               else if \<not> CreateFileA_ok os then (LIBUSB_ERROR_ACCESS, dev1, priv1, hc)
               else
                 (case conn_info os of
                    None \<Rightarrow> (LIBUSB_ERROR_NO_DEVICE, dev1, priv1, hc)
                  | Some ci \<Rightarrow>
                      if \<not> DeviceConnected ci then (LIBUSB_ERROR_NO_DEVICE, dev1, priv1, hc)
                      else
                        let (dev', priv') = init_device_connected os ci parent_d dev1 priv1
                        in (LIBUSB_SUCCESS, dev', priv', hc))))"

subsection \<open>Composite interfaces\<close>

text \<open>
  Reading \<open>device_id[i]\<close> of a NUL-terminated string: the characters, then the
  terminator; an index past the terminator is outside the object (\<open>None\<close>).
  \<open>char_int\<close> is the value of a \<open>char\<close> promoted to \<open>int\<close> (\<open>char\<close> is signed on the
  Windows compilers).
\<close>

definition cstr_at :: "string \<Rightarrow> nat \<Rightarrow> char option" where
  "cstr_at s i =
     (if i < length s then Some (s ! i) else if i = length s then Some (CHR 0x00) else None)"

definition char_int :: "char \<Rightarrow> int" where
  "char_int c = (if of_char c < (128 :: int) then of_char c else of_char c - 256)"

text \<open>
  The scanning loop shared by \<open>set_composite_interface\<close> and
  \<open>unset_composite_interface\<close>:
  \<^verbatim>\<open>for (i=0; device_id[i] != 0; ) {
    if ((device_id[i++] == 'M') && (device_id[i++] == 'I') && (device_id[i++] == '_')) {
      interface_number = (device_id[i++] - '0')*10;
      interface_number += device_id[i] - '0';
      break; } }\<close>
  Each comparison that is evaluated advances \<open>i\<close>, also when it fails.  The result is
  \<open>interface_number\<close> and the final \<open>i\<close>.
\<close>

function mi_scan :: "string \<Rightarrow> nat \<Rightarrow> (int \<times> nat) option" where
  "mi_scan s i =
     (case cstr_at s i of
        None \<Rightarrow> None
      | Some c \<Rightarrow>
          if c = CHR 0x00 then Some (0, i)
          else if c \<noteq> CHR ''M'' then mi_scan s (i + 1)
          else
            (case cstr_at s (i + 1) of
               None \<Rightarrow> None
             | Some c1 \<Rightarrow>
                 if c1 \<noteq> CHR ''I'' then mi_scan s (i + 2)
                 else
                   (case cstr_at s (i + 2) of
                      None \<Rightarrow> None
                    | Some c2 \<Rightarrow>
                        if c2 \<noteq> CHR ''_'' then mi_scan s (i + 3)
                        else
                          (case cstr_at s (i + 3) of
                             None \<Rightarrow> None
                           | Some d1 \<Rightarrow>
                               (case cstr_at s (i + 4) of
                                  None \<Rightarrow> None
                                | Some d2 \<Rightarrow>
                                    Some ((char_int d1 - char_int CHR ''0'') * 10
                                            + (char_int d2 - char_int CHR ''0''),
                                          i + 4))))))"
  by pat_completeness auto
termination
  by (relation "measure (\<lambda>(s, i). length s + 1 - i)")
     (auto simp: cstr_at_def split: if_splits)

declare mi_scan.simps [simp del]

definition SUB_API_NOTSET :: int where
  "SUB_API_NOTSET = -1"

text \<open>
  \<open>set_composite_interface\<close>.  \<open>dev_interface_path\<close> is never \<open>NULL\<close> at the two call
  sites.  \<open>calloc_ok\<close> says whether the allocation of \<open>priv->hid\<close> succeeds.  The
  result is \<open>None\<close> when the source reads outside the string or indexes
  \<open>usb_interface\<close> with a negative number; otherwise the return code, the device, and
  whether the warning about the interface number was issued.
\<close>

definition set_composite_interface ::
  "windows_device_priv \<Rightarrow> string \<Rightarrow> string \<Rightarrow> usb_api \<Rightarrow> int \<Rightarrow> bool
     \<Rightarrow> (libusb_error \<times> windows_device_priv \<times> bool) option" where
  "set_composite_interface priv dev_interface_path dev_id api sub_api_no calloc_ok =
     (if dev_apib priv \<noteq> USB_API_COMPOSITE then Some (LIBUSB_ERROR_NO_DEVICE, priv, False)
      else case mi_scan dev_id 0 of
        None \<Rightarrow> None
      | Some (interface_number, i) \<Rightarrow>
          (case cstr_at dev_id i of
             None \<Rightarrow> None
           | Some c \<Rightarrow>
               let warned = (c = CHR 0x00) in
               if interface_number \<ge> int (length (usb_interface priv))
               then Some (LIBUSB_ERROR_OTHER, priv, warned)
               else if interface_number < 0 then None
               else if path (usb_interface priv ! nat interface_number) \<noteq> None
                       \<and> api = USB_API_HID
               then Some (LIBUSB_ERROR_ACCESS, priv, warned)
               else
                 let priv' = priv\<lparr>usb_interface := (usb_interface priv)
                               [nat interface_number :=
                                  (usb_interface priv ! nat interface_number)
                                    \<lparr>path := Some dev_interface_path, apib := api,
                                     sub_api := sub_api_no\<rparr>]\<rparr>
                 in
                 if api = USB_API_HID \<and> hid priv' = None then
                   (if calloc_ok
                    then Some (LIBUSB_SUCCESS, priv'\<lparr>hid := Some \<lparr>nb_interfaces = 0\<rparr>\<rparr>, warned)
                    else Some (LIBUSB_ERROR_NO_MEM, priv', warned))
                 else Some (LIBUSB_SUCCESS, priv', warned)))"

text \<open>\<open>unset_composite_interface\<close>: the device afterwards and whether it warned.\<close>

definition unset_composite_interface ::
  "windows_device_priv \<Rightarrow> string \<Rightarrow> (windows_device_priv \<times> bool) option" where
  "unset_composite_interface priv dev_id =
     (if dev_apib priv \<noteq> USB_API_COMPOSITE then Some (priv, False)
      else case mi_scan dev_id 0 of
        None \<Rightarrow> None
      | Some (interface_number, i) \<Rightarrow>
          (case cstr_at dev_id i of
             None \<Rightarrow> None
           | Some c \<Rightarrow>
               let warned = (c = CHR 0x00) in
               if interface_number \<ge> int (length (usb_interface priv)) then Some (priv, warned)
               else if interface_number < 0 then None
               else if path (usb_interface priv ! nat interface_number) = None
               then Some (priv, warned)
               else
                 let ifs = (usb_interface priv)
                             [nat interface_number :=
                                (usb_interface priv ! nat interface_number)
                                  \<lparr>path := None, apib := USB_API_UNSUPPORTED,
                                   sub_api := SUB_API_NOTSET\<rparr>];
                     hid_present = list_ex (\<lambda>x. apib x = USB_API_HID) ifs
                 in Some (priv\<lparr>usb_interface := ifs,
                            hid := (if hid_present then hid priv else None)\<rparr>, warned)))"

text \<open>
  \<open>marker_at s k\<close>: the three characters \<open>MI_\<close> stand at position \<open>k\<close> of \<open>s\<close>.
  \<open>install_leaf\<close> is the device after the three assignments to the interface slot.
\<close>

definition marker_at :: "string \<Rightarrow> nat \<Rightarrow> bool" where
  "marker_at s k = (k + 2 < length s \<and> s ! k = CHR ''M'' \<and> s ! (k + 1) = CHR ''I''
      \<and> s ! (k + 2) = CHR ''_'')"

definition install_leaf ::
  "windows_device_priv \<Rightarrow> nat \<Rightarrow> string \<Rightarrow> usb_api \<Rightarrow> int \<Rightarrow> windows_device_priv" where
  "install_leaf priv n new_path api sub_api_no =
     priv\<lparr>usb_interface := (usb_interface priv)
       [n := (usb_interface priv ! n)\<lparr>path := Some new_path, apib := api,
                sub_api := sub_api_no\<rparr>]\<rparr>"

subsection \<open>Device handles, auto-claim and auto-release\<close>

text \<open>
  \<open>USB_MAXINTERFACES\<close> is declared in the library's internal header; it is the size of
  the arrays \<open>usb_interface\<close>, \<open>interface_handle\<close> and \<open>autoclaim_count\<close>.
\<close>

definition USB_MAXINTERFACES :: nat where
  "USB_MAXINTERFACES = 32"

text \<open>
  A \<open>HANDLE\<close> is a pointer-sized integer; \<open>INVALID_HANDLE_VALUE\<close> is \<open>-1\<close>.
\<close>

definition INVALID_HANDLE_VALUE :: int where
  "INVALID_HANDLE_VALUE = - 1"

record interface_handle_t =
  dev_handle :: int
  api_handle :: int

text \<open>
  The calls that leave this file for the library core, in the order they are made.
\<close>

datatype core_call = Claim nat | Release nat

text \<open>
  \<open>struct windows_device_handle_priv\<close> of one device handle, with the log of the calls
  of \<open>libusb_claim_interface\<close> and \<open>libusb_release_interface\<close> made on it, and
  \<open>os_state\<close> for whatever else the core and the operating system keep.
  \<open>autoclaim_count\<close> is an array of \<open>int\<close>; the counter is bounded by the number of
  transfers in flight and the model does not bound it.
\<close>

record 'b handle_state =
  interface_handle :: "interface_handle_t list"
  autoclaim_count :: "int list"
  core_calls :: "core_call list"
  os_state :: 'b

text \<open>
  \<open>libusb_claim_interface\<close> and \<open>libusb_release_interface\<close> are functions of the
  library core which call back into the backend and the operating system: they are
  parameters of the model.  They act on the interface handles and on \<open>os_state\<close>;
  \<open>autoclaim_count\<close> is beyond their reach, as it is in the source, where only
  \<open>auto_claim\<close> and \<open>auto_release\<close> access it.
\<close>

type_synonym 'b core_fn =
  "interface_handle_t list \<Rightarrow> 'b \<Rightarrow> nat \<Rightarrow> libusb_error \<times> interface_handle_t list \<times> 'b"

definition call_core :: "'b core_fn \<Rightarrow> core_call \<Rightarrow> 'b handle_state \<Rightarrow> nat
    \<Rightarrow> libusb_error \<times> 'b handle_state" where
  "call_core f ev st n =
     (let (r, ih, b) = f (interface_handle st) (os_state st) n
      in (r, st\<lparr>interface_handle := ih, os_state := b, core_calls := core_calls st @ [ev]\<rparr>))"

text \<open>
  The \<open>for\<close> loop of \<open>auto_claim\<close>: the first interface of the requested backend
  whose claim succeeds gets its counter incremented; the claim is attempted only on
  interfaces of that backend (\<open>&&\<close> evaluates its right operand only then).
\<close>

function auto_claim_loop ::
  "'b core_fn \<Rightarrow> windows_device_priv \<Rightarrow> usb_api \<Rightarrow> 'b handle_state \<Rightarrow> nat
     \<Rightarrow> nat \<times> 'b handle_state" where
  "auto_claim_loop claim priv api_type st current_interface =
     (if current_interface < USB_MAXINTERFACES then
        if apib (usb_interface priv ! current_interface) = api_type then
          (case call_core claim (Claim current_interface) st current_interface of
             (r, st') \<Rightarrow>
               if r = LIBUSB_SUCCESS then
                 (current_interface,
                  st'\<lparr>autoclaim_count := (autoclaim_count st')
                        [current_interface := autoclaim_count st' ! current_interface + 1]\<rparr>)
               else auto_claim_loop claim priv api_type st' (current_interface + 1))
        else auto_claim_loop claim priv api_type st (current_interface + 1)
      else (current_interface, st))"
  by pat_completeness auto
termination
  by (relation "measure (\<lambda>(c, p, a, st, i). USB_MAXINTERFACES - i)") auto

declare auto_claim_loop.simps [simp del]

text \<open>
  \<open>auto_claim\<close>: returns the code and the value left in \<open>*interface_number\<close>.  An
  interface number beyond the array is an access outside it (\<open>None\<close>).
\<close>

definition auto_claim ::
  "'b core_fn \<Rightarrow> windows_device_priv \<Rightarrow> 'b handle_state \<Rightarrow> int \<Rightarrow> usb_api
     \<Rightarrow> (libusb_error \<times> int \<times> 'b handle_state) option" where
  "auto_claim claim priv st interface_no api_type =
     (if api_type \<noteq> USB_API_WINUSBX \<and> api_type \<noteq> USB_API_HID
      then Some (LIBUSB_ERROR_INVALID_PARAM, interface_no, st)
      else if interface_no < 0 then
        (case auto_claim_loop claim priv api_type st 0 of
           (current_interface, st') \<Rightarrow>
             Some (if current_interface = USB_MAXINTERFACES
                   then LIBUSB_ERROR_NOT_FOUND else LIBUSB_SUCCESS,
                   int current_interface, st'))
      else if nat interface_no \<ge> USB_MAXINTERFACES then None
      else if autoclaim_count st ! nat interface_no \<noteq> 0 then
        Some (LIBUSB_SUCCESS, interface_no,
              st\<lparr>autoclaim_count := (autoclaim_count st)
                    [nat interface_no := autoclaim_count st ! nat interface_no + 1]\<rparr>)
      else Some (LIBUSB_SUCCESS, interface_no, st))"

text \<open>
  \<open>auto_release\<close> for a transfer bound to interface \<open>n\<close>
  (\<open>transfer_priv->interface_number\<close>, an 8-bit field).
\<close>

definition auto_release :: "'b core_fn \<Rightarrow> 'b handle_state \<Rightarrow> byte \<Rightarrow> 'b handle_state option" where
  "auto_release release st n =
     (if unat n \<ge> USB_MAXINTERFACES then None
      else if autoclaim_count st ! unat n > 0 then
        let st1 = st\<lparr>autoclaim_count := (autoclaim_count st)
                      [unat n := autoclaim_count st ! unat n - 1]\<rparr>
        in if autoclaim_count st1 ! unat n = 0
           then Some (snd (call_core release (Release (unat n)) st1 (unat n)))
           else Some st1
      else Some st)"

text \<open>The handle state after \<open>k\<close> transfers bound to interface \<open>n\<close> are torn down.\<close>

fun auto_release_times ::
  "'b core_fn \<Rightarrow> 'b handle_state \<Rightarrow> byte \<Rightarrow> nat \<Rightarrow> 'b handle_state option" where
  "auto_release_times release st n 0 = Some st"
| "auto_release_times release st n (Suc k) =
     (case auto_release release st n of
        None \<Rightarrow> None
      | Some st' \<Rightarrow> auto_release_times release st' n k)"

text \<open>A handle whose arrays have the declared size.\<close>

definition handle_ok :: "windows_device_priv \<Rightarrow> 'b handle_state \<Rightarrow> bool" where
  "handle_ok priv st =
     (length (usb_interface priv) = USB_MAXINTERFACES
      \<and> length (interface_handle st) = USB_MAXINTERFACES
      \<and> length (autoclaim_count st) = USB_MAXINTERFACES)"

subsection \<open>Control transfers on the WinUSB-like backend\<close>

text \<open>
  \<open>get_valid_interface\<close>: the first interface of the backend \<open>api_id\<close> with both
  handles valid, or \<open>-1\<close>.  The range test of the source,
  \<open>api_id < USB_API_WINUSBX || api_id > USB_API_HID\<close>, is on the numeric identifier.
\<close>

function get_valid_interface_loop ::
  "windows_device_priv \<Rightarrow> 'b handle_state \<Rightarrow> usb_api \<Rightarrow> nat \<Rightarrow> int" where
  "get_valid_interface_loop priv st api_id i =
     (if i < USB_MAXINTERFACES then
        if dev_handle (interface_handle st ! i) \<noteq> 0
           \<and> dev_handle (interface_handle st ! i) \<noteq> INVALID_HANDLE_VALUE
           \<and> api_handle (interface_handle st ! i) \<noteq> 0
           \<and> api_handle (interface_handle st ! i) \<noteq> INVALID_HANDLE_VALUE
           \<and> apib (usb_interface priv ! i) = api_id
        then int i
        else get_valid_interface_loop priv st api_id (i + 1)
      else - 1)"
  by pat_completeness auto
termination
  by (relation "measure (\<lambda>(p, st, a, i). USB_MAXINTERFACES - i)") auto

declare get_valid_interface_loop.simps [simp del]

definition get_valid_interface :: "windows_device_priv \<Rightarrow> 'b handle_state \<Rightarrow> usb_api \<Rightarrow> int" where
  "get_valid_interface priv st api_id =
     (if api_index api_id < api_index USB_API_WINUSBX \<or> api_index api_id > api_index USB_API_HID
      then - 1
      else get_valid_interface_loop priv st api_id 0)"

text \<open>
  The pollable source of a transfer (\<open>struct winfd\<close>): \<open>None\<close> is \<open>INVALID_WINFD\<close>.
  \<open>struct windows_transfer_priv\<close>: \<open>hid_buffer\<close> is the temporary report buffer,
  \<open>hid_dest\<close> the offset in the transfer's buffer that the pointer \<open>hid_dest\<close> refers
  to (\<open>None\<close> for \<open>NULL\<close>).
\<close>

record winfd =
  fd :: int
  completed_synchronously :: bool
  InternalHigh :: nat

record windows_transfer_priv =
  pollable_fd :: "winfd option"
  interface_number :: byte
  hid_buffer :: "byte list option"
  hid_dest :: "nat option"
  hid_expected_size :: nat

text \<open>
  A transfer: \<open>struct libusb_transfer\<close> with its \<open>struct usbi_transfer\<close> and private
  part.  \<open>timed_out\<close> is the flag \<open>USBI_TRANSFER_TIMED_OUT\<close>.  A control transfer's
  buffer starts with the setup packet of \<open>LIBUSB_CONTROL_SETUP_SIZE = 8\<close> bytes.
  \<open>transferred\<close> is an \<open>int\<close> of 32 bits (\<open>sint\<close> reads it): \<open>transferred += n\<close> with
  a \<open>uint32_t n\<close> adds in 32 bits and wraps around.
\<close>

record usbi_transfer =
  xfer_length :: int
  xfer_buffer :: "byte list"
  transferred :: "32 word"
  timed_out :: bool
  transfer_priv :: windows_transfer_priv

text \<open>
  What the operating system answers during the submission of a control transfer:
  whether the WinUSB-like library of the sub-API is initialised, the pollable source
  \<open>usbi_create_fd\<close> returns (\<open>None\<close>: its \<open>fd\<close> is negative), and the outcome of
  \<open>ControlTransfer\<close>.
\<close>

datatype io_outcome = IoCompleted | IoPending | IoFailed

record submit_os =
  WinUSBX_initialized :: "int \<Rightarrow> bool"
  usbi_create_fd :: "int \<Rightarrow> winfd option"
  ControlTransfer :: io_outcome

definition MAX_CTRL_BUFFER_LENGTH :: nat where
  "MAX_CTRL_BUFFER_LENGTH = 4096"

text \<open>
  \<open>winusbx_submit_control_transfer\<close>.  \<open>size\<close> is a \<open>ULONG\<close>: the difference wraps
  around for a transfer shorter than a setup packet.  The setup packet is read from the
  first bytes of the buffer: \<open>request_type\<close> at offset 0, \<open>request\<close> at offset 1,
  \<open>value\<close> at offsets 2 and 3.
\<close>

definition winusbx_submit_control_transfer ::
  "submit_os \<Rightarrow> 'b core_fn \<Rightarrow> int \<Rightarrow> windows_device_priv \<Rightarrow> 'b handle_state \<Rightarrow> usbi_transfer
     \<Rightarrow> (libusb_error \<times> 'b handle_state \<times> usbi_transfer) option" where
  "winusbx_submit_control_transfer os claim sub_api_arg priv st itransfer =
     (let sub_api_no = (if sub_api_arg = SUB_API_NOTSET then dev_sub_api priv else sub_api_arg) in
      if \<not> WinUSBX_initialized os sub_api_no then Some (LIBUSB_ERROR_ACCESS, st, itransfer)
      else
        let tp = (transfer_priv itransfer)\<lparr>pollable_fd := None\<rparr>;
            it1 = itransfer\<lparr>transfer_priv := tp\<rparr>;
            size = nat ((xfer_length itransfer - 8) mod 2 ^ 32)
        in
        if size > MAX_CTRL_BUFFER_LENGTH then Some (LIBUSB_ERROR_INVALID_PARAM, st, it1)
        else
          (case (let ci = get_valid_interface priv st USB_API_WINUSBX in
                 if ci < 0 then auto_claim claim priv st ci USB_API_WINUSBX
                 else Some (LIBUSB_SUCCESS, ci, st)) of
             None \<Rightarrow> None
           | Some (r, current_interface, st') \<Rightarrow>
               if r \<noteq> LIBUSB_SUCCESS then Some (LIBUSB_ERROR_NOT_FOUND, st', it1)
               else if nat current_interface \<ge> USB_MAXINTERFACES then None
               else
                 (case usbi_create_fd os
                         (api_handle (interface_handle st' ! nat current_interface)) of
                    None \<Rightarrow> Some (LIBUSB_ERROR_NO_MEM, st', it1)
                  | Some wfd \<Rightarrow>
                      if length (xfer_buffer itransfer) < 8 then None
                      else
                        let request_type = xfer_buffer itransfer ! 0;
                            request = xfer_buffer itransfer ! 1;
                            val = unat (xfer_buffer itransfer ! 2)
                                    + 256 * unat (xfer_buffer itransfer ! 3);
                            done = (\<lambda>w. Some (LIBUSB_SUCCESS, st',
                                     it1\<lparr>transfer_priv := tp\<lparr>pollable_fd := Some w,
                                       interface_number := of_int current_interface\<rparr>\<rparr>))
                        in
                        if request_type AND 0x60 = 0 \<and> request = 9 then
                          (if val \<noteq> unat (active_config priv)
                           then Some (LIBUSB_ERROR_INVALID_PARAM, st', it1)
                           else done (wfd\<lparr>completed_synchronously := True, InternalHigh := 0\<rparr>))
                        else
                          (case ControlTransfer os of
                             IoFailed \<Rightarrow> Some (LIBUSB_ERROR_IO, st', it1)
                           | IoPending \<Rightarrow> done wfd
                           | IoCompleted \<Rightarrow>
                               done (wfd\<lparr>completed_synchronously := True,
                                          InternalHigh := size\<rparr>)))))"

subsection \<open>Transfer completion\<close>

datatype libusb_transfer_status =
    LIBUSB_TRANSFER_COMPLETED
  | LIBUSB_TRANSFER_ERROR
  | LIBUSB_TRANSFER_TIMED_OUT
  | LIBUSB_TRANSFER_CANCELLED
  | LIBUSB_TRANSFER_STALL
  | LIBUSB_TRANSFER_NO_DEVICE
  | LIBUSB_TRANSFER_OVERFLOW







text \<open>
  \<open>windows_clear_transfer_priv\<close>: the pollable source is released
  (\<open>usbi_free_fd\<close> leaves \<open>INVALID_WINFD\<close>), the report buffer freed, and
  \<open>auto_release\<close> called for the interface of the transfer.
\<close>

definition windows_clear_transfer_priv ::
  "'b core_fn \<Rightarrow> 'b handle_state \<Rightarrow> usbi_transfer \<Rightarrow> ('b handle_state \<times> usbi_transfer) option" where
  "windows_clear_transfer_priv release st itransfer =
     (case auto_release release st (interface_number (transfer_priv itransfer)) of
        None \<Rightarrow> None
      | Some st' \<Rightarrow>
          Some (st', itransfer\<lparr>transfer_priv :=
                  (transfer_priv itransfer)\<lparr>pollable_fd := None, hid_buffer := None\<rparr>\<rparr>))"






subsection \<open>The hash table of instance identifiers\<close>

text \<open>
  \<open>htab_entry\<close> and the globals \<open>htab_table\<close>, \<open>htab_size\<close>, \<open>htab_filled\<close>.  The
  table is allocated with \<open>htab_size + 1\<close> entries.  \<open>unsigned long\<close> has 32 bits on
  Windows; indices and counts are natural numbers, and the two subtractions and the
  increment that can wrap are written modulo \<open>2 ^ 32\<close>.
\<close>

record htab_entry =
  used :: nat
  str :: "string option"

record htab =
  htab_table :: "htab_entry list"
  htab_size :: nat
  htab_filled :: nat

text \<open>
  \<open>safe_strcmp\<close> is a macro of the backend's header: \<open>strcmp\<close> with \<open>NULL\<close> replaced
  by the string \<open><NULL>\<close>.  The model gives the truth of \<open>safe_strcmp(a, b) == 0\<close>.
\<close>

definition safe_strcmp :: "string option \<Rightarrow> string option \<Rightarrow> bool" where
  "safe_strcmp a b =
     ((case a of None \<Rightarrow> ''<NULL>'' | Some x \<Rightarrow> x) = (case b of None \<Rightarrow> ''<NULL>'' | Some y \<Rightarrow> y))"

text \<open>
  The main hash value: \<open>r = ((r << 5) + r) + c\<close> over the characters, from 5381, in
  32 bits, \<open>c\<close> being the character promoted to \<open>int\<close>; a result of 0 becomes 1.
\<close>

definition hash_step :: "32 word \<Rightarrow> char \<Rightarrow> 32 word" where
  "hash_step r c = (push_bit 5 r + r) + of_int (char_int c)"

definition main_hash :: "string \<Rightarrow> 32 word" where
  "main_hash s = (let r = foldl hash_step 5381 s in if r = 0 then 1 else r)"

text \<open>
  The \<open>do ... while\<close> loop of \<open>htab_hash\<close>, with fuel: \<open>None\<close> when the fuel is
  used up.  \<open>Slot idx\<close>: the loop was left, by \<open>break\<close> or by its condition, with this
  index; \<open>Found idx\<close>: the entry was found; \<open>Fault\<close>: the index is outside the table.
\<close>

datatype probe = Found nat | Slot nat | Fault

text \<open>The index update at the head of the loop body.\<close>

definition next_idx :: "nat \<Rightarrow> nat \<Rightarrow> nat \<Rightarrow> nat" where
  "next_idx size_arg hval2 idx =
     (if idx \<le> hval2 then (size_arg + idx + 2 ^ 32 - hval2) mod 2 ^ 32 else idx - hval2)"

fun htab_probe :: "nat \<Rightarrow> htab \<Rightarrow> string \<Rightarrow> nat \<Rightarrow> nat \<Rightarrow> nat \<Rightarrow> probe option" where
  "htab_probe 0 t s hval hval2 idx = None"
| "htab_probe (Suc fuel) t s hval hval2 idx =
     (let idx' = next_idx (htab_size t) hval2 idx
      in if idx' = hval then Some (Slot idx')
         else if idx' \<ge> length (htab_table t) then Some Fault
         else if used (htab_table t ! idx') = hval
                 \<and> safe_strcmp (Some s) (str (htab_table t ! idx'))
         then Some (Found idx')
         else if used (htab_table t ! idx') \<noteq> 0 then htab_probe fuel t s hval hval2 idx'
         else Some (Slot idx'))"

text \<open>
  \<open>htab_hash\<close>, in three parts.  The table hash \<open>hval\<close>: the main hash modulo the
  table size, 0 replaced by 1.
\<close>

definition htab_hval :: "htab \<Rightarrow> string \<Rightarrow> nat" where
  "htab_hval t s =
     (let hval = unat (main_hash s) mod htab_size t in if hval = 0 then 1 else hval)"

text \<open>
  The search: the first index \<open>hval\<close>, then, on a collision, the second hash
  \<open>hval2 = 1 + hval % (htab_size - 2)\<close> and the loop.  A modulus of 0 is a division
  by zero (\<open>Fault\<close>).
\<close>

definition htab_search :: "nat \<Rightarrow> htab \<Rightarrow> string \<Rightarrow> probe option" where
  "htab_search fuel t s =
     (let hval = htab_hval t s in
      if used (htab_table t ! hval) \<noteq> 0 then
        (if used (htab_table t ! hval) = hval
            \<and> safe_strcmp (Some s) (str (htab_table t ! hval))
         then Some (Found hval)
         else if (htab_size t + 2 ^ 32 - 2) mod 2 ^ 32 = 0 then Some Fault
         else htab_probe fuel t s hval
                (1 + hval mod ((htab_size t + 2 ^ 32 - 2) mod 2 ^ 32)) hval)
      else Some (Slot hval))"

text \<open>
  The whole function.  \<open>calloc_ok\<close> says whether the copy of the string can be
  allocated.  The result is the identifier returned and the table afterwards; \<open>None\<close>
  when the source returns nothing within the fuel, divides by zero or leaves the
  table.
\<close>

definition htab_hash ::
  "nat \<Rightarrow> bool \<Rightarrow> htab \<Rightarrow> string option \<Rightarrow> (nat \<times> htab) option" where
  "htab_hash fuel calloc_ok t str_arg =
     (case str_arg of
        None \<Rightarrow> Some (0, t)
      | Some s \<Rightarrow>
          if htab_size t = 0 then None
          else if htab_hval t s \<ge> length (htab_table t) then None
          else
            (case htab_search fuel t s of
               None \<Rightarrow> None
             | Some Fault \<Rightarrow> None
             | Some (Found idx) \<Rightarrow> Some (idx, t)
             | Some (Slot idx) \<Rightarrow>
                 if htab_filled t \<ge> htab_size t then Some (0, t)
                 else if idx \<ge> length (htab_table t) then None
                 else if \<not> calloc_ok then
                   Some (0, t\<lparr>htab_table := (htab_table t)[idx := \<lparr>used = 0, str = None\<rparr>]\<rparr>)
                 else
                   Some (idx, t\<lparr>htab_table := (htab_table t)
                                   [idx := \<lparr>used = htab_hval t s, str = Some s\<rparr>],
                                 htab_filled := (htab_filled t + 1) mod 2 ^ 32\<rparr>)))"


text \<open>A device with one cached configuration descriptor of nine bytes, and a root hub
  (one configuration announced, nothing cached).\<close>

definition example_blob :: "byte list" where
  "example_blob = [9, 2, 9, 0, 1, 1, 0, 128, 50]"

definition example_dev :: libusb_device where
  "example_dev = \<lparr>session_data = 7, bus_number = 1, port_number = 2, device_address = 3,
     num_configurations = 1, speed = LIBUSB_SPEED_HIGH, parent_dev = Some 1\<rparr>"

definition example_priv :: windows_device_priv where
  "example_priv = \<lparr>depth = 1, port = 2, active_config = 1, dev_apib = USB_API_WINUSBX,
     dev_sub_api = 0, dev_path = Some ''p'', device_id = Some ''d'', usb_interface = [],
     hid = None,
     dev_descriptor = \<lparr>bLength = 18, bDescriptorType = 1, bDeviceClass = 0, idVendor = 1,
       idProduct = 2, bNumConfigurations = 1\<rparr>,
     config_descriptor = Some [Some example_blob]\<rparr>"

text \<open>
  A root hub as enumeration leaves it, a device and private part as
  \<open>usbi_alloc_device\<close> and \<open>windows_device_priv_init\<close> leave them (zeroed, no
  interface set), and two answers of the hub driver: one reporting address 5 and one
  reporting address 255.
\<close>

definition unset_interface :: usb_interface_priv where
  "unset_interface = \<lparr>path = None, apib = USB_API_UNSUPPORTED, sub_api = - 1,
     nb_endpoints = 0, endpoint = None, restricted_functionality = False\<rparr>"

definition example_hub_dev :: libusb_device where
  "example_hub_dev = \<lparr>session_data = 1, bus_number = 1, port_number = 0, device_address = 1,
     num_configurations = 1, speed = LIBUSB_SPEED_UNKNOWN, parent_dev = None\<rparr>"

definition example_hub_priv :: windows_device_priv where
  "example_hub_priv = \<lparr>depth = 0, port = 0, active_config = 1, dev_apib = USB_API_HUB,
     dev_sub_api = -1, dev_path = Some ''hub'', device_id = Some ''ROOT_HUB30'',
     usb_interface = replicate 32 unset_interface, hid = None,
     dev_descriptor = \<lparr>bLength = 18, bDescriptorType = 1, bDeviceClass = 9,
       idVendor = 0x8086, idProduct = 0x1e31, bNumConfigurations = 1\<rparr>,
     config_descriptor = None\<rparr>"

definition fresh_dev :: libusb_device where
  "fresh_dev = \<lparr>session_data = 7, bus_number = 0, port_number = 0, device_address = 0,
     num_configurations = 0, speed = LIBUSB_SPEED_UNKNOWN, parent_dev = None\<rparr>"

definition fresh_priv :: windows_device_priv where
  "fresh_priv = \<lparr>depth = 0, port = 0, active_config = 0, dev_apib = USB_API_WINUSBX,
     dev_sub_api = 0, dev_path = Some ''p'', device_id = Some ''d'',
     usb_interface = replicate 32 unset_interface, hid = None,
     dev_descriptor = \<lparr>bLength = 0, bDescriptorType = 0, bDeviceClass = 0,
       idVendor = 0, idProduct = 0, bNumConfigurations = 0\<rparr>,
     config_descriptor = None\<rparr>"

definition example_conn_info :: "16 word \<Rightarrow> usb_node_connection_information_ex" where
  "example_conn_info addr = \<lparr>DeviceConnected = True,
     DeviceDescriptor = \<lparr>bLength = 18, bDescriptorType = 1, bDeviceClass = 0,
       idVendor = 0x046d, idProduct = 0xc52b, bNumConfigurations = 1\<rparr>,
     CurrentConfigurationValue = 1, DeviceAddress = addr, Speed = 2\<rparr>"

definition example_hub_os :: "16 word \<Rightarrow> hub_os" where
  "example_hub_os addr = \<lparr>CreateFileA_ok = True, conn_info = Some (example_conn_info addr),
     cache_config_descriptors = (\<lambda>n. (LIBUSB_SUCCESS, Some [Some example_blob]))\<rparr>"

definition example_hcd_os :: hcd_os where
  "example_hcd_os = \<lparr>get_parent_device_id = Some ''PCI#VEN_8086&DEV_1E31'',
     strdup_ok = True, sscanf_ven_dev = Some (0x8086, 0x1e31)\<rparr>"

definition example_hcd_os2 :: hcd_os where
  "example_hcd_os2 = \<lparr>get_parent_device_id = Some ''PCI#VEN_1B21&DEV_1142'',
     strdup_ok = True, sscanf_ven_dev = Some (0x1b21, 0x1142)\<rparr>"

definition example_hcd_os3 :: hcd_os where
  "example_hcd_os3 = \<lparr>get_parent_device_id = Some ''PCI#VEN_1033&DEV_0194'',
     strdup_ok = True, sscanf_ven_dev = Some (0x1033, 0x0194)\<rparr>"

text \<open>
  A composite device with no interface set, and the instance ids and paths of two of
  its children (\<open>CHR 0x5C\<close> is the backslash).
\<close>

definition composite_priv :: windows_device_priv where
  "composite_priv = \<lparr>depth = 1, port = 2, active_config = 1, dev_apib = USB_API_COMPOSITE,
     dev_sub_api = -1, dev_path = Some ''c'', device_id = Some ''USB#VID_046D&PID_C52B'',
     usb_interface = replicate 32 unset_interface, hid = None,
     dev_descriptor = \<lparr>bLength = 18, bDescriptorType = 1, bDeviceClass = 0,
       idVendor = 0x046d, idProduct = 0xc52b, bNumConfigurations = 1\<rparr>,
     config_descriptor = None\<rparr>"

definition id_mi00 :: string where
  "id_mi00 = ''USB'' @ [CHR 0x5C] @ ''VID_046D&PID_C52B&MI_00'' @ [CHR 0x5C] @ ''7&2a5a8c8f&0&0000''"

definition id_mi03 :: string where
  "id_mi03 = ''USB'' @ [CHR 0x5C] @ ''VID_046D&PID_C52B&MI_03'' @ [CHR 0x5C] @ ''7&2a5a8c8f&0&0003''"

definition id_pre :: string where
  "id_pre = ''USB'' @ [CHR 0x5C] @ ''VID_046D&PID_C52B&''"

definition id_post0 :: string where
  "id_post0 = [CHR 0x5C] @ ''7&2a5a8c8f&0&0000''"

definition id_post3 :: string where
  "id_post3 = [CHR 0x5C] @ ''7&2a5a8c8f&0&0003''"

text \<open>The composite device with slot 0 occupied by a WinUSB leaf.\<close>

definition occupied_priv :: windows_device_priv where
  "occupied_priv = install_leaf composite_priv 0 ''path0'' USB_API_WINUSBX 0"

text \<open>
  A device handle with interface 0 auto-claimed twice, a core whose claim and release
  always succeed, and one whose claim always fails with Busy.
\<close>

definition example_handle :: "unit handle_state" where
  "example_handle = \<lparr>interface_handle = replicate 32 \<lparr>dev_handle = 0, api_handle = 0\<rparr>,
     autoclaim_count = (replicate 32 0)[0 := 2], core_calls = [], os_state = ()\<rparr>"

definition core_ok :: "unit core_fn" where
  "core_ok ih b n = (LIBUSB_SUCCESS, ih, b)"

definition core_busy :: "unit core_fn" where
  "core_busy ih b n = (LIBUSB_ERROR_BUSY, ih, b)"

definition example_winusb_priv :: windows_device_priv where
  "example_winusb_priv = fresh_priv\<lparr>usb_interface :=
     replicate 32 (unset_interface\<lparr>apib := USB_API_WINUSBX\<rparr>)\<rparr>"

definition example_submit_os :: submit_os where
  "example_submit_os = \<lparr>WinUSBX_initialized = (\<lambda>i. True),
     usbi_create_fd = (\<lambda>h. Some \<lparr>fd = 3, completed_synchronously = False, InternalHigh = 0\<rparr>),
     ControlTransfer = IoPending\<rparr>"

definition example_transfer :: usbi_transfer where
  "example_transfer = \<lparr>xfer_length = 8, xfer_buffer = [0x80, 6, 0, 1, 0, 0, 0, 0],
     transferred = 0, timed_out = False,
     transfer_priv = \<lparr>pollable_fd = None, interface_number = 0, hid_buffer = None,
       hid_dest = None, hid_expected_size = 0\<rparr>\<rparr>"





text \<open>
  A WinUSB device handle as \<open>winusbx_open\<close> leaves it, with the file handle of every
  interface set and no interface claimed, and a core whose claim and release succeed
  and do to the handles what \<open>winusbx_claim_interface\<close> and
  \<open>winusbx_release_interface\<close> do: the claim stores the WinUSB handle of the interface,
  the release overwrites it with \<open>INVALID_HANDLE_VALUE\<close>.  \<open>claimed_handle\<close> and
  \<open>released_handle\<close> are the handle after interface 0 was auto-claimed once and after
  it was released again; \<open>pending_transfer\<close> is the control transfer
  \<open>example_transfer\<close> in flight on interface 0.
\<close>

definition opened_handle :: "unit handle_state" where
  "opened_handle = \<lparr>interface_handle = replicate 32 \<lparr>dev_handle = 7, api_handle = 0\<rparr>,
     autoclaim_count = replicate 32 0, core_calls = [], os_state = ()\<rparr>"

definition winusb_core_claim :: "unit core_fn" where
  "winusb_core_claim ih b n = (LIBUSB_SUCCESS, ih[n := (ih ! n)\<lparr>api_handle := 9\<rparr>], b)"

definition winusb_core_release :: "unit core_fn" where
  "winusb_core_release ih b n =
     (LIBUSB_SUCCESS, ih[n := (ih ! n)\<lparr>api_handle := INVALID_HANDLE_VALUE\<rparr>], b)"

definition claimed_handle :: "unit handle_state" where
  "claimed_handle = \<lparr>interface_handle =
       (replicate 32 \<lparr>dev_handle = 7, api_handle = 0\<rparr>)[0 := \<lparr>dev_handle = 7, api_handle = 9\<rparr>],
     autoclaim_count = (replicate 32 0)[0 := 1], core_calls = [Claim 0], os_state = ()\<rparr>"

definition released_handle :: "unit handle_state" where
  "released_handle = \<lparr>interface_handle =
       (replicate 32 \<lparr>dev_handle = 7, api_handle = 0\<rparr>)
         [0 := \<lparr>dev_handle = 7, api_handle = INVALID_HANDLE_VALUE\<rparr>],
     autoclaim_count = replicate 32 0, core_calls = [Claim 0, Release 0], os_state = ()\<rparr>"

definition pending_transfer :: usbi_transfer where
  "pending_transfer = example_transfer\<lparr>transfer_priv := (transfer_priv example_transfer)
     \<lparr>pollable_fd := Some \<lparr>fd = 3, completed_synchronously = False, InternalHigh = 0\<rparr>,
      interface_number := 0\<rparr>\<rparr>"

text \<open>
  An empty table of size 5, and the table after \<open>A\<close> was entered (at index 3).
\<close>

definition example_htab :: htab where
  "example_htab = \<lparr>htab_table = replicate 6 \<lparr>used = 0, str = None\<rparr>, htab_size = 5,
     htab_filled = 0\<rparr>"

definition example_htab_one :: htab where
  "example_htab_one = \<lparr>htab_table = (replicate 6 \<lparr>used = 0, str = None\<rparr>)
       [3 := \<lparr>used = 3, str = Some ''A''\<rparr>], htab_size = 5, htab_filled = 1\<rparr>"

section \<open>Theorems\<close>

subsection \<open>Configuration descriptor read-out\<close>

lemma memcpy_min:
  "n \<le> length src \<Longrightarrow> n \<le> length dst \<Longrightarrow> memcpy dst src n = Some (take n src @ drop n dst)"
  by (simp add: memcpy_def)

text \<open>
  C10.  \<open>windows_get_config_descriptor\<close> returns Invalid-Parameter when the zero-based
  index is not below the device's number of configurations, and Not-Found when no blob
  is cached for the index (the array itself or the entry is \<open>NULL\<close>).  Otherwise, for a
  blob as the cache stores it and a caller buffer of \<open>len\<close> bytes, it copies exactly
  \<open>min wTotalLength len\<close> bytes to the front of the buffer and returns that count: a
  short buffer gives a truncated successful result.  No input makes it return Overflow.
\<close>

theorem windows_get_config_descriptor_result:
  "(config_index \<ge> num_configurations dev \<longrightarrow>
      windows_get_config_descriptor dev priv config_index buffer len
        = Some (Inl LIBUSB_ERROR_INVALID_PARAM, buffer))
   \<and> (config_index < num_configurations dev \<and> config_descriptor priv = None \<longrightarrow>
      windows_get_config_descriptor dev priv config_index buffer len
        = Some (Inl LIBUSB_ERROR_NOT_FOUND, buffer))
   \<and> (config_index < num_configurations dev \<and> config_descriptor priv = Some descs
        \<and> unat config_index < length descs \<and> descs ! unat config_index = None \<longrightarrow>
      windows_get_config_descriptor dev priv config_index buffer len
        = Some (Inl LIBUSB_ERROR_NOT_FOUND, buffer))
   \<and> (config_index < num_configurations dev \<and> config_descriptor priv = Some descs
        \<and> unat config_index < length descs \<and> descs ! unat config_index = Some blob
        \<and> cached_blob_ok blob \<and> len \<le> length buffer \<longrightarrow>
      windows_get_config_descriptor dev priv config_index buffer len
        = Some (Inr (min (length blob) len),
                take (min (length blob) len) blob @ drop (min (length blob) len) buffer))
   \<and> (\<forall>b. windows_get_config_descriptor dev priv config_index buffer len
        \<noteq> Some (Inl LIBUSB_ERROR_OVERFLOW, b))"
proof (intro conjI impI allI)
  show "windows_get_config_descriptor dev priv config_index buffer len
        \<noteq> Some (Inl LIBUSB_ERROR_OVERFLOW, b)" for b
    by (auto simp: windows_get_config_descriptor_def Let_def
             split: option.splits if_splits)
next
  assume h: "config_index < num_configurations dev \<and> config_descriptor priv = Some descs
        \<and> unat config_index < length descs \<and> descs ! unat config_index = Some blob
        \<and> cached_blob_ok blob \<and> len \<le> length buffer"
  then have t: "wTotalLength blob = Some (length blob)"
    by (simp add: cached_blob_ok_def)
  have m: "memcpy buffer blob (min (length blob) len)
            = Some (take (min (length blob) len) blob @ drop (min (length blob) len) buffer)"
    using h by (intro memcpy_min) auto
  show "windows_get_config_descriptor dev priv config_index buffer len
        = Some (Inr (min (length blob) len),
                take (min (length blob) len) blob @ drop (min (length blob) len) buffer)"
    using h t m by (simp add: windows_get_config_descriptor_def Let_def not_le [symmetric])
qed (auto simp: windows_get_config_descriptor_def)

theorem windows_get_config_descriptor_result_witness:
  "cached_blob_ok example_blob
   \<and> windows_get_config_descriptor example_dev example_priv 0 [0, 0, 0, 0] 4
       = Some (Inr 4, [9, 2, 9, 0])
   \<and> windows_get_config_descriptor example_dev example_priv 0 (replicate 12 0) 12
       = Some (Inr 9, example_blob @ [0, 0, 0])
   \<and> windows_get_config_descriptor example_dev example_priv 1 [0, 0, 0, 0] 4
       = Some (Inl LIBUSB_ERROR_INVALID_PARAM, [0, 0, 0, 0])
   \<and> windows_get_config_descriptor example_dev (example_priv\<lparr>config_descriptor := None\<rparr>) 0
         [0, 0, 0, 0] 4
       = Some (Inl LIBUSB_ERROR_NOT_FOUND, [0, 0, 0, 0])
   \<and> windows_get_config_descriptor example_dev
         (example_priv\<lparr>config_descriptor := Some [None]\<rparr>) 0 [0, 0, 0, 0] 4
       = Some (Inl LIBUSB_ERROR_NOT_FOUND, [0, 0, 0, 0])"
proof -
  have ok: "cached_blob_ok example_blob"
    by (simp add: cached_blob_ok_def wTotalLength_def example_blob_def)
  note r = windows_get_config_descriptor_result
  have a: "windows_get_config_descriptor example_dev example_priv 0 [0, 0, 0, 0] 4
       = Some (Inr 4, [9, 2, 9, 0])"
    using ok r [where dev = example_dev and priv = example_priv and config_index = 0
        and buffer = "[0, 0, 0, 0]" and len = 4 and descs = "[Some example_blob]"
        and blob = example_blob]
    by (simp add: example_dev_def example_priv_def example_blob_def)
  have b: "windows_get_config_descriptor example_dev example_priv 0 (replicate 12 0) 12
       = Some (Inr 9, example_blob @ [0, 0, 0])"
    using ok r [where dev = example_dev and priv = example_priv and config_index = 0
        and buffer = "replicate 12 0" and len = 12 and descs = "[Some example_blob]"
        and blob = example_blob]
    by (simp add: example_dev_def example_priv_def example_blob_def numeral_eq_Suc)
  have c: "windows_get_config_descriptor example_dev example_priv 1 [0, 0, 0, 0] 4
       = Some (Inl LIBUSB_ERROR_INVALID_PARAM, [0, 0, 0, 0])"
    using r [where dev = example_dev and priv = example_priv and config_index = 1
        and buffer = "[0, 0, 0, 0]" and len = 4]
    by (simp add: example_dev_def)
  have d: "windows_get_config_descriptor example_dev (example_priv\<lparr>config_descriptor := None\<rparr>) 0
         [0, 0, 0, 0] 4 = Some (Inl LIBUSB_ERROR_NOT_FOUND, [0, 0, 0, 0])"
    using r [where dev = example_dev and priv = "example_priv\<lparr>config_descriptor := None\<rparr>"
        and config_index = 0 and buffer = "[0, 0, 0, 0]" and len = 4]
    by (simp add: example_dev_def)
  have e: "windows_get_config_descriptor example_dev
         (example_priv\<lparr>config_descriptor := Some [None]\<rparr>) 0 [0, 0, 0, 0] 4
       = Some (Inl LIBUSB_ERROR_NOT_FOUND, [0, 0, 0, 0])"
    using r [where dev = example_dev and priv = "example_priv\<lparr>config_descriptor := Some [None]\<rparr>"
        and config_index = 0 and buffer = "[0, 0, 0, 0]" and len = 4 and descs = "[None]"]
    by (simp add: example_dev_def)
  from ok a b c d e show ?thesis by blast
qed

subsection \<open>Device initialisation: addresses, ports and bus numbers\<close>

lemma usbi_sanitize_device_fields [simp]:
  "bus_number (usbi_sanitize_device p d) = bus_number d"
  "device_address (usbi_sanitize_device p d) = device_address d"
  "port_number (usbi_sanitize_device p d) = port_number d"
  "parent_dev (usbi_sanitize_device p d) = parent_dev d"
  by (simp_all add: usbi_sanitize_device_def)

lemma force_hcd_keeps_address:
  "device_address (fst (snd (force_hcd_device_descriptor hos hc dev priv))) = device_address dev"
  "port_number (fst (snd (force_hcd_device_descriptor hos hc dev priv))) = port_number dev"
  by (simp_all add: force_hcd_device_descriptor_def Let_def split_beta split: option.split)

lemma init_device_connected_fields:
  "bus_number (fst (init_device_connected os ci parent_d dev1 priv1)) = bus_number dev1"
  "port_number (fst (init_device_connected os ci parent_d dev1 priv1)) = port_number dev1"
  "device_address (fst (init_device_connected os ci parent_d dev1 priv1))
     = (ucast (DeviceAddress ci) :: byte) + 1"
  "parent_dev (fst (init_device_connected os ci parent_d dev1 priv1))
     = Some (session_data parent_d)"
  by (simp_all add: init_device_connected_def Let_def split_beta)

lemma init_device_root:
  assumes "init_device os hos hc dev priv None 0 = (r, dev', priv', hc')"
  shows "device_address dev' = 1 \<and> port_number dev' = 0"
proof -
  let ?f = "force_hcd_device_descriptor hos hc
      (dev\<lparr>device_address := 1, port_number := 0\<rparr>) (priv\<lparr>port := 0, depth := 0\<rparr>)"
  have k: "device_address (fst (snd ?f)) = 1" "port_number (fst (snd ?f)) = 0"
    by (simp_all add: force_hcd_keeps_address)
  have "dev' = fst (snd ?f) \<or> (\<exists>p. dev' = usbi_sanitize_device p (fst (snd ?f)))"
    using assms by (auto simp add: init_device_def Let_def split_beta split: if_splits)
  with k show ?thesis by auto
qed

lemma init_device_root_parent:
  "init_device os hos hc dev priv (Some p) 0 = (LIBUSB_ERROR_OTHER, dev, priv, hc)"
  by (simp add: init_device_def)

lemma init_device_child_eqs:
  assumes "port_no \<noteq> 0"
  shows "init_device os hos hc dev priv None port_no = (LIBUSB_ERROR_NOT_FOUND, dev, priv, hc)"
    and "dev_apib pp \<noteq> USB_API_HUB \<Longrightarrow>
       init_device os hos hc dev priv (Some (pd, pp)) port_no
         = (LIBUSB_ERROR_NOT_FOUND, dev, priv, hc)"
    and "bus_number pd = 0 \<Longrightarrow>
       init_device os hos hc dev priv (Some (pd, pp)) port_no
         = (LIBUSB_ERROR_NOT_FOUND, dev, priv, hc)"
    and "dev_apib pp = USB_API_HUB \<Longrightarrow> bus_number pd \<noteq> 0 \<Longrightarrow> device_address dev \<noteq> 0 \<Longrightarrow>
       init_device os hos hc dev priv (Some (pd, pp)) port_no
         = (LIBUSB_SUCCESS,
            dev\<lparr>bus_number := bus_number pd, port_number := port_no,
                parent_dev := Some (session_data pd)\<rparr>,
            priv\<lparr>port := port_no, depth := depth pp + 1\<rparr>, hc)"
    and "dev_apib pp = USB_API_HUB \<Longrightarrow> bus_number pd \<noteq> 0 \<Longrightarrow> device_address dev = 0 \<Longrightarrow>
       \<not> CreateFileA_ok os \<Longrightarrow>
       fst (init_device os hos hc dev priv (Some (pd, pp)) port_no) = LIBUSB_ERROR_ACCESS"
    and "dev_apib pp = USB_API_HUB \<Longrightarrow> bus_number pd \<noteq> 0 \<Longrightarrow> device_address dev = 0 \<Longrightarrow>
       CreateFileA_ok os \<Longrightarrow> conn_info os = None \<Longrightarrow>
       fst (init_device os hos hc dev priv (Some (pd, pp)) port_no) = LIBUSB_ERROR_NO_DEVICE"
    and "dev_apib pp = USB_API_HUB \<Longrightarrow> bus_number pd \<noteq> 0 \<Longrightarrow> device_address dev = 0 \<Longrightarrow>
       CreateFileA_ok os \<Longrightarrow> conn_info os = Some ci \<Longrightarrow> \<not> DeviceConnected ci \<Longrightarrow>
       fst (init_device os hos hc dev priv (Some (pd, pp)) port_no) = LIBUSB_ERROR_NO_DEVICE"
    and "dev_apib pp = USB_API_HUB \<Longrightarrow> bus_number pd \<noteq> 0 \<Longrightarrow> device_address dev = 0 \<Longrightarrow>
       CreateFileA_ok os \<Longrightarrow> conn_info os = Some ci \<Longrightarrow> DeviceConnected ci \<Longrightarrow>
       init_device os hos hc dev priv (Some (pd, pp)) port_no
         = (LIBUSB_SUCCESS,
            fst (init_device_connected os ci pd
              (dev\<lparr>bus_number := bus_number pd, port_number := port_no\<rparr>)
              (priv\<lparr>port := port_no, depth := depth pp + 1\<rparr>)),
            snd (init_device_connected os ci pd
              (dev\<lparr>bus_number := bus_number pd, port_number := port_no\<rparr>)
              (priv\<lparr>port := port_no, depth := depth pp + 1\<rparr>)), hc)"
  using assms by (simp_all add: init_device_def Let_def split_beta)

text \<open>What a successful initialisation of a non-root device implies.\<close>

lemma init_device_child:
  assumes nz: "port_no \<noteq> 0"
    and ok: "init_device os hos hc dev priv parent port_no = (LIBUSB_SUCCESS, dev', priv', hc')"
  shows "\<exists>pd pp. parent = Some (pd, pp)
      \<and> bus_number dev' = bus_number pd \<and> port_number dev' = port_no
      \<and> (device_address dev \<noteq> 0 \<longrightarrow> device_address dev' = device_address dev)
      \<and> (device_address dev = 0 \<longrightarrow>
            (\<exists>ci. conn_info os = Some ci
               \<and> device_address dev' = (ucast (DeviceAddress ci) :: byte) + 1))"
proof (cases parent)
  case None
  with ok init_device_child_eqs(1) [OF nz, of os hos hc dev priv] show ?thesis by simp
next
  case (Some p)
  obtain pd pp where p: "parent = Some (pd, pp)" using Some by (cases p) simp
  note ok' = ok [unfolded p]
  have hub: "dev_apib pp = USB_API_HUB"
  proof (rule ccontr)
    assume "dev_apib pp \<noteq> USB_API_HUB"
    from init_device_child_eqs(2) [OF nz this, of os hos hc dev priv pd] ok'
    show False by simp
  qed
  have bus: "bus_number pd \<noteq> 0"
  proof
    assume "bus_number pd = 0"
    from init_device_child_eqs(3) [OF nz this, of os hos hc dev priv pp] ok'
    show False by simp
  qed
  show ?thesis
  proof (cases "device_address dev = 0")
    case False
    from init_device_child_eqs(4) [OF nz hub bus False, of os hos hc priv] ok' p False
    show ?thesis by auto
  next
    case fresh: True
    have cf: "CreateFileA_ok os"
    proof (rule ccontr)
      assume "\<not> CreateFileA_ok os"
      from init_device_child_eqs(5) [OF nz hub bus fresh this, of hos hc priv] ok'
      show False by simp
    qed
    obtain ci where ci: "conn_info os = Some ci"
    proof (cases "conn_info os")
      case None
      from init_device_child_eqs(6) [OF nz hub bus fresh cf None, of hos hc priv] ok'
      show ?thesis by simp
    next
      case (Some c)
      then show ?thesis by (rule that)
    qed
    have con: "DeviceConnected ci"
    proof (rule ccontr)
      assume "\<not> DeviceConnected ci"
      from init_device_child_eqs(7) [OF nz hub bus fresh cf ci this, of hos hc priv] ok'
      show False by simp
    qed
    from init_device_child_eqs(8) [OF nz hub bus fresh cf ci con, of hos hc priv] ok'
    have "dev' = fst (init_device_connected os ci pd
              (dev\<lparr>bus_number := bus_number pd, port_number := port_no\<rparr>)
              (priv\<lparr>port := port_no, depth := depth pp + 1\<rparr>))"
      by simp
    then have "bus_number dev' = bus_number pd" "port_number dev' = port_no"
      "device_address dev' = (ucast (DeviceAddress ci) :: byte) + 1"
      by (simp_all add: init_device_connected_fields)
    with p fresh ci show ?thesis by simp
  qed
qed

text \<open>
  C6.  A root hub (port number 0, no parent) is given device address 1 and port
  number 0, and a successful initialisation with port number 0 is always of that kind;
  every successfully initialised non-root device has a parent and carries the parent's
  bus number.
\<close>

theorem init_device_root_address_and_parent_bus:
  "init_device os hos hc dev priv parent port_no = (r, dev', priv', hc') \<Longrightarrow>
   (port_no = 0 \<and> parent = None \<longrightarrow> device_address dev' = 1 \<and> port_number dev' = 0)
   \<and> (port_no = 0 \<and> r = LIBUSB_SUCCESS \<longrightarrow>
         parent = None \<and> device_address dev' = 1 \<and> port_number dev' = 0)
   \<and> (port_no \<noteq> 0 \<and> r = LIBUSB_SUCCESS \<longrightarrow>
         (\<exists>pd pp. parent = Some (pd, pp) \<and> bus_number dev' = bus_number pd))"
proof -
  assume a: "init_device os hos hc dev priv parent port_no = (r, dev', priv', hc')"
  have root: "device_address dev' = 1 \<and> port_number dev' = 0"
    if "port_no = 0" "parent = None"
    using a that init_device_root [of os hos hc dev priv r dev' priv' hc'] by simp
  have noparent: "parent = None" if "port_no = 0" "r = LIBUSB_SUCCESS"
  proof (cases parent)
    case (Some p)
    with a that init_device_root_parent [of os hos hc dev priv p] show ?thesis by simp
  qed simp
  have child: "\<exists>pd pp. parent = Some (pd, pp) \<and> bus_number dev' = bus_number pd"
    if "port_no \<noteq> 0" "r = LIBUSB_SUCCESS"
  proof -
    from a that have "init_device os hos hc dev priv parent port_no
        = (LIBUSB_SUCCESS, dev', priv', hc')" by simp
    from init_device_child [OF that(1) this] show ?thesis by blast
  qed
  from root noparent child show ?thesis by blast
qed

lemma example_init_root:
  "init_device (example_hub_os 5) example_hcd_os [None, None] fresh_dev fresh_priv None 0
   = (LIBUSB_SUCCESS,
      fresh_dev\<lparr>bus_number := 1, device_address := 1, num_configurations := 1\<rparr>,
      fresh_priv\<lparr>active_config := 1,
        dev_descriptor := \<lparr>bLength = 18, bDescriptorType = 1, bDeviceClass = 9,
          idVendor = 0x8086, idProduct = 0x1e31, bNumConfigurations = 1\<rparr>\<rparr>,
      [Some ''PCI#VEN_8086&DEV_1E31'', None])"
  by (simp add: init_device_def force_hcd_device_descriptor_def example_hcd_os_def fresh_dev_def
      fresh_priv_def usbi_sanitize_device_def Let_def hc_scan.simps)

lemma example_init_child:
  "fst (init_device (example_hub_os a) example_hcd_os [None, None] fresh_dev fresh_priv
      (Some (example_hub_dev, example_hub_priv)) 2) = LIBUSB_SUCCESS"
  "device_address (fst (snd (init_device (example_hub_os a) example_hcd_os [None, None]
      fresh_dev fresh_priv (Some (example_hub_dev, example_hub_priv)) 2)))
   = (ucast a :: byte) + 1"
  by (simp_all add: init_device_def init_device_connected_def example_hub_os_def
      example_conn_info_def example_hub_dev_def example_hub_priv_def fresh_dev_def
      fresh_priv_def usbi_sanitize_device_def Let_def)

theorem init_device_root_address_and_parent_bus_witness:
  "fst (init_device (example_hub_os 5) example_hcd_os [None, None] fresh_dev fresh_priv None 0)
     = LIBUSB_SUCCESS
   \<and> device_address (fst (snd (init_device (example_hub_os 5) example_hcd_os [None, None]
        fresh_dev fresh_priv None 0))) = 1
   \<and> port_number (fst (snd (init_device (example_hub_os 5) example_hcd_os [None, None]
        fresh_dev fresh_priv None 0))) = 0
   \<and> fst (init_device (example_hub_os 5) example_hcd_os [None, None] fresh_dev fresh_priv
        (Some (example_hub_dev, example_hub_priv)) 2) = LIBUSB_SUCCESS
   \<and> bus_number (fst (snd (init_device (example_hub_os 5) example_hcd_os [None, None]
        fresh_dev fresh_priv (Some (example_hub_dev, example_hub_priv)) 2)))
       = bus_number example_hub_dev"
proof -
  let ?R = "init_device (example_hub_os 5) example_hcd_os [None, None] fresh_dev fresh_priv
      None 0"
  let ?C = "init_device (example_hub_os 5) example_hcd_os [None, None] fresh_dev fresh_priv
      (Some (example_hub_dev, example_hub_priv)) 2"
  have r: "fst ?R = LIBUSB_SUCCESS" by (simp add: example_init_root)
  have c: "fst ?C = LIBUSB_SUCCESS" by (rule example_init_child)
  have "?R = (fst ?R, fst (snd ?R), fst (snd (snd ?R)), snd (snd (snd ?R)))" by simp
  from init_device_root_address_and_parent_bus [OF this] r
  have 1: "device_address (fst (snd ?R)) = 1 \<and> port_number (fst (snd ?R)) = 0" by simp
  have "?C = (fst ?C, fst (snd ?C), fst (snd (snd ?C)), snd (snd (snd ?C)))" by simp
  from init_device_root_address_and_parent_bus [OF this] c
  have 2: "bus_number (fst (snd ?C)) = bus_number example_hub_dev" by simp
  from r c 1 2 show ?thesis by simp
qed

subsection \<open>Device addresses\<close>

lemma address_plus_one:
  fixes a :: "16 word"
  assumes "a < 255"
  shows "unat ((ucast a :: byte) + 1) = unat a + 1" "(ucast a :: byte) + 1 \<noteq> 0"
proof -
  from assms have l: "unat a < 255" by (simp add: word_less_nat_alt)
  have u: "unat (ucast a :: byte) = unat a"
    using l by (simp add: unsigned_ucast_eq take_bit_nat_eq_self)
  show "unat ((ucast a :: byte) + 1) = unat a + 1"
    using l u by (simp add: unat_word_ariths)
  then show "(ucast a :: byte) + 1 \<noteq> 0"
    by (metis Suc_eq_plus1 nat.distinct(1) unat_0)
qed


text \<open>
  C8, the code at connection address 255: \<open>init_device\<close> succeeds and leaves device
  address 0, the value it takes for "not set" itself.  The test
  \<open>conn_info.DeviceAddress > UINT8_MAX\<close> that precedes the assignment does not cover
  255, where \<open>(uint8_t)conn_info.DeviceAddress + 1\<close>, stored in 8 bits, is 0.
\<close>

theorem init_device_address_255_gives_zero:
  "fst (init_device (example_hub_os 255) example_hcd_os [None, None] fresh_dev fresh_priv
      (Some (example_hub_dev, example_hub_priv)) 2) = LIBUSB_SUCCESS
   \<and> device_address (fst (snd (init_device (example_hub_os 255) example_hcd_os [None, None]
        fresh_dev fresh_priv (Some (example_hub_dev, example_hub_priv)) 2))) = 0"
  by (simp add: example_init_child)

text \<open>
  Below 255 the addresses are as intended: after a successful \<open>init_device\<close>, a root
  hub has device address 1, and a freshly allocated non-root device for which the hub
  driver reports a connection address below 255 has that address plus one, which is
  not 0.
\<close>

lemma init_device_address_nonzero:
  "init_device os hos hc dev priv parent port_no = (LIBUSB_SUCCESS, dev', priv', hc') \<Longrightarrow>
   (port_no = 0 \<longrightarrow> device_address dev' = 1)
   \<and> (port_no \<noteq> 0 \<and> device_address dev = 0 \<longrightarrow>
        (\<exists>ci. conn_info os = Some ci
           \<and> (DeviceAddress ci < 255 \<longrightarrow>
                unat (device_address dev') = unat (DeviceAddress ci) + 1
                \<and> device_address dev' \<noteq> 0)))"
proof -
  assume a: "init_device os hos hc dev priv parent port_no = (LIBUSB_SUCCESS, dev', priv', hc')"
  have root: "device_address dev' = 1" if z: "port_no = 0"
  proof (cases parent)
    case None
    with a z init_device_root [of os hos hc dev priv LIBUSB_SUCCESS dev' priv' hc']
    show ?thesis by simp
  next
    case (Some p)
    with a z init_device_root_parent [of os hos hc dev priv p] show ?thesis by simp
  qed
  have child: "\<exists>ci. conn_info os = Some ci
           \<and> (DeviceAddress ci < 255 \<longrightarrow>
                unat (device_address dev') = unat (DeviceAddress ci) + 1
                \<and> device_address dev' \<noteq> 0)"
    if nz: "port_no \<noteq> 0" and fresh: "device_address dev = 0"
  proof -
    from init_device_child [OF nz a] fresh obtain ci where
      ci: "conn_info os = Some ci" "device_address dev' = (ucast (DeviceAddress ci) :: byte) + 1"
      by auto
    with address_plus_one [of "DeviceAddress ci"] show ?thesis by auto
  qed
  from root child show ?thesis by blast
qed


lemma init_device_address_nonzero_example:
  "unat (device_address (fst (snd (init_device (example_hub_os 5) example_hcd_os [None, None]
        fresh_dev fresh_priv (Some (example_hub_dev, example_hub_priv)) 2)))) = 6
   \<and> device_address (fst (snd (init_device (example_hub_os 5) example_hcd_os [None, None]
        fresh_dev fresh_priv None 0))) = 1"
proof -
  let ?R = "init_device (example_hub_os 5) example_hcd_os [None, None] fresh_dev fresh_priv
      None 0"
  let ?C = "init_device (example_hub_os 5) example_hcd_os [None, None] fresh_dev fresh_priv
      (Some (example_hub_dev, example_hub_priv)) 2"
  have "?R = (LIBUSB_SUCCESS, fst (snd ?R), fst (snd (snd ?R)), snd (snd (snd ?R)))"
    by (simp add: example_init_root)
  from init_device_address_nonzero [OF this]
  have 1: "device_address (fst (snd ?R)) = 1" by simp
  have "?C = (LIBUSB_SUCCESS, fst (snd ?C), fst (snd (snd ?C)), snd (snd (snd ?C)))"
    using example_init_child(1) [of 5] by (metis prod.collapse)
  from init_device_address_nonzero [OF this]
  have 2: "unat (device_address (fst (snd ?C))) = 6"
    by (simp add: fresh_dev_def example_hub_os_def example_conn_info_def)
  from 1 2 show ?thesis by simp
qed

subsection \<open>Host controllers and bus numbers\<close>

lemma hc_scan_found:
  "first_at hc hcid k \<Longrightarrow> i \<le> k \<Longrightarrow> hc_scan hc hcid dup i = (k, hc)"
proof (induction hc hcid dup i rule: hc_scan.induct)
  case (1 hc hcid dup index)
  from "1.prems" have k: "k < length hc" "hc ! k = Some hcid" by (simp_all add: first_at_def)
  show ?case
  proof (cases "index = k")
    case True
    with k show ?thesis by (subst hc_scan.simps) simp
  next
    case False
    with "1.prems" have lt: "index < k" by simp
    with "1.prems" obtain s where s: "hc ! index = Some s" "s \<noteq> hcid" "index < length hc"
      by (auto simp: first_at_def)
    with "1.IH" [of s] "1.prems" lt have "hc_scan hc hcid dup (index + 1) = (k, hc)" by simp
    with s show ?thesis by (subst hc_scan.simps) simp
  qed
qed

lemma hc_scan_result:
  "hc_scan hc hcid dup i = (k, hc') \<Longrightarrow>
     i \<le> k \<and> (i \<le> length hc \<longrightarrow> k \<le> length hc)
     \<and> (\<forall>j. i \<le> j \<and> j < k \<longrightarrow> hc ! j \<noteq> None \<and> hc ! j \<noteq> Some hcid)
     \<and> (k < length hc \<longrightarrow> (hc ! k = Some hcid \<and> hc' = hc) \<or> (hc ! k = None \<and> hc' = hc[k := dup]))
     \<and> (k \<ge> length hc \<longrightarrow> hc' = hc)"
proof (induction hc hcid dup i rule: hc_scan.induct)
  case (1 hc hcid dup index)
  note sc = hc_scan.simps [of hc hcid dup index]
  show ?case
  proof (cases "index < length hc")
    case False
    with "1.prems" show ?thesis by (auto simp: sc)
  next
    case lt: True
    show ?thesis
    proof (cases "hc ! index")
      case None
      with lt "1.prems" show ?thesis by (auto simp: sc)
    next
      case (Some s)
      show ?thesis
      proof (cases "s = hcid")
        case True
        with lt Some "1.prems" show ?thesis by (auto simp: sc)
      next
        case False
        with lt Some "1.prems" have r: "hc_scan hc hcid dup (index + 1) = (k, hc')"
          by (simp add: sc)
        note ih = "1.IH" [OF lt Some False r]
        have rng: "hc ! j \<noteq> None \<and> hc ! j \<noteq> Some hcid" if "index \<le> j \<and> j < k" for j
        proof (cases "j = index")
          case True
          with Some False show ?thesis by simp
        next
          case False
          with that have "index + 1 \<le> j \<and> j < k" by simp
          with ih show ?thesis by blast
        qed
        from ih lt rng show ?thesis by simp
      qed
    qed
  qed
qed


lemma force_hcd_projections:
  "snd (snd (snd (force_hcd_device_descriptor os hc dev priv)))
     = (case get_parent_device_id os of
          None \<Rightarrow> hc
        | Some h \<Rightarrow> snd (hc_scan hc h (if strdup_ok os then Some h else None) 0))"
  "fst (force_hcd_device_descriptor os hc dev priv)
     = (case get_parent_device_id os of
          None \<Rightarrow> LIBUSB_ERROR_NOT_FOUND
        | Some h \<Rightarrow>
            let s = hc_scan hc h (if strdup_ok os then Some h else None) 0
            in if fst s = length (snd s) \<or> snd s ! fst s = None
               then LIBUSB_ERROR_NO_DEVICE else LIBUSB_SUCCESS)"
  "bus_number (fst (snd (force_hcd_device_descriptor os hc dev priv)))
     = (case get_parent_device_id os of
          None \<Rightarrow> bus_number dev
        | Some h \<Rightarrow>
            let s = hc_scan hc h (if strdup_ok os then Some h else None) 0
            in if fst s = length (snd s) \<or> snd s ! fst s = None
               then bus_number dev else of_nat (fst s + 1))"
  by (auto simp add: force_hcd_device_descriptor_def Let_def split_beta split: option.split)

lemma hc_scan_keeps:
  assumes "hc_scan hc hcid dup 0 = (k, hc')"
  shows "length hc' = length hc" "j < length hc \<Longrightarrow> hc ! j \<noteq> None \<Longrightarrow> hc' ! j = hc ! j"
proof -
  note r = hc_scan_result [OF assms]
  from r show "length hc' = length hc" by (cases "k < length hc") auto
  assume j: "j < length hc" "hc ! j \<noteq> None"
  show "hc' ! j = hc ! j"
  proof (cases "k < length hc \<and> hc ! k = None")
    case True
    with j have "j \<noteq> k" by auto
    moreover from r True have "hc' = hc[k := dup]" by auto
    ultimately show ?thesis by simp
  next
    case False
    with r have "hc' = hc" by (cases "k < length hc") auto
    then show ?thesis by simp
  qed
qed

lemma force_hcd_keeps:
  "length (snd (snd (snd (force_hcd_device_descriptor os hc dev priv)))) = length hc"
  "j < length hc \<Longrightarrow> hc ! j \<noteq> None \<Longrightarrow>
     snd (snd (snd (force_hcd_device_descriptor os hc dev priv))) ! j = hc ! j"
proof -
  show "length (snd (snd (snd (force_hcd_device_descriptor os hc dev priv)))) = length hc"
    by (cases "get_parent_device_id os")
       (simp_all add: force_hcd_projections hc_scan_keeps(1) [OF surjective_pairing])
  assume "j < length hc" "hc ! j \<noteq> None"
  then show "snd (snd (snd (force_hcd_device_descriptor os hc dev priv))) ! j = hc ! j"
    by (cases "get_parent_device_id os")
       (simp_all add: force_hcd_projections hc_scan_keeps(2) [OF surjective_pairing])
qed

lemma first_at_force_hcd:
  assumes "first_at hc hcid k"
  shows "first_at (snd (snd (snd (force_hcd_device_descriptor os hc dev priv)))) hcid k"
proof -
  let ?hc' = "snd (snd (snd (force_hcd_device_descriptor os hc dev priv)))"
  from assms have k: "k < length hc" by (simp add: first_at_def)
  have same: "?hc' ! j = hc ! j" if "j \<le> k" for j
  proof -
    from that assms k have "j < length hc" "hc ! j \<noteq> None"
      by (auto simp: first_at_def le_less)
    then show ?thesis by (rule force_hcd_keeps(2))
  qed
  from assms k same show ?thesis
    by (simp add: first_at_def force_hcd_keeps(1))
qed

lemma hc_run_keeps:
  "length (hc_run hc runs) = length hc"
  "first_at hc hcid k \<Longrightarrow> first_at (hc_run hc runs) hcid k"
proof (induction hc runs rule: hc_run.induct)
  case (1 hc)
  { case 1 show ?case by simp }
  { case 2 then show ?case by simp }
next
  case (2 hc os dev priv rest)
  { case 1 show ?case using "2.IH"(1) by (simp add: force_hcd_keeps(1)) }
  { case 2 then show ?case using "2.IH"(2) by (simp add: first_at_force_hcd) }
qed

lemma force_hcd_first_at:
  assumes "first_at hc hcid k" "get_parent_device_id os = Some hcid"
  shows "fst (force_hcd_device_descriptor os hc dev priv) = LIBUSB_SUCCESS"
    "bus_number (fst (snd (force_hcd_device_descriptor os hc dev priv))) = of_nat (k + 1)"
    "snd (snd (snd (force_hcd_device_descriptor os hc dev priv))) = hc"
proof -
  have s: "hc_scan hc hcid (if strdup_ok os then Some hcid else None) 0 = (k, hc)"
    using assms(1) by (intro hc_scan_found) simp_all
  from assms(1) have k: "k < length hc" "hc ! k = Some hcid" by (simp_all add: first_at_def)
  from s k assms(2) show "fst (force_hcd_device_descriptor os hc dev priv) = LIBUSB_SUCCESS"
    "bus_number (fst (snd (force_hcd_device_descriptor os hc dev priv))) = of_nat (k + 1)"
    "snd (snd (snd (force_hcd_device_descriptor os hc dev priv))) = hc"
    by (simp_all add: force_hcd_projections)
qed


lemma unat_bus_number:
  "k < 255 \<Longrightarrow> unat (of_nat (k + 1) :: byte) = k + 1"
  by (rule of_nat_inverse [OF refl]) simp

lemma force_hcd_success:
  assumes ok: "fst (force_hcd_device_descriptor os hc dev priv) = LIBUSB_SUCCESS"
    and pid: "get_parent_device_id os = Some hcid"
  shows "\<exists>k. first_at (snd (snd (snd (force_hcd_device_descriptor os hc dev priv)))) hcid k
     \<and> bus_number (fst (snd (force_hcd_device_descriptor os hc dev priv))) = of_nat (k + 1)
     \<and> (\<forall>j<k. hc ! j \<noteq> None \<and> hc ! j \<noteq> Some hcid)
     \<and> (hc ! k = Some hcid \<and> snd (snd (snd (force_hcd_device_descriptor os hc dev priv))) = hc
         \<or> hc ! k = None
           \<and> snd (snd (snd (force_hcd_device_descriptor os hc dev priv))) = hc[k := Some hcid])"
proof -
  let ?dup = "if strdup_ok os then Some hcid else None"
  obtain k hc' where s: "hc_scan hc hcid ?dup 0 = (k, hc')" by (metis surj_pair)
  note r = hc_scan_result [OF s]
  from r have len: "length hc' = length hc" by (cases "k < length hc") auto
  from ok pid s have nz: "k \<noteq> length hc'" "hc' ! k \<noteq> None"
    by (auto simp: force_hcd_projections Let_def split: if_splits)
  with r len have k: "k < length hc" by simp
  from pid s nz have t: "snd (snd (snd (force_hcd_device_descriptor os hc dev priv))) = hc'"
    and b: "bus_number (fst (snd (force_hcd_device_descriptor os hc dev priv))) = of_nat (k + 1)"
    by (auto simp add: force_hcd_projections)
  from r have before: "\<forall>j<k. hc ! j \<noteq> None \<and> hc ! j \<noteq> Some hcid" by simp
  from r k have "hc ! k = Some hcid \<and> hc' = hc \<or> hc ! k = None \<and> hc' = hc[k := ?dup]" by simp
  then have c: "(hc ! k = Some hcid \<and> hc' = hc \<or> hc ! k = None \<and> hc' = hc[k := Some hcid])
      \<and> hc' ! k = Some hcid"
  proof
    assume "hc ! k = Some hcid \<and> hc' = hc"
    then show ?thesis by simp
  next
    assume n: "hc ! k = None \<and> hc' = hc[k := ?dup]"
    with nz k have "strdup_ok os" by (cases "strdup_ok os") auto
    with n k show ?thesis by simp
  qed
  have same: "hc' ! j = hc ! j" if "j < k" for j
    using c that by auto
  from c k len before same have "first_at hc' hcid k" by (simp add: first_at_def)
  with t b before c show ?thesis by auto
qed

lemma force_hcd_full:
  assumes full: "\<forall>j<length hc. hc ! j \<noteq> None \<and> hc ! j \<noteq> Some hcid"
    and pid: "get_parent_device_id os = Some hcid"
  shows "force_hcd_device_descriptor os hc dev priv = (LIBUSB_ERROR_NO_DEVICE, dev, priv, hc)"
proof -
  let ?dup = "if strdup_ok os then Some hcid else None"
  obtain k hc' where s: "hc_scan hc hcid ?dup 0 = (k, hc')" by (metis surj_pair)
  note r = hc_scan_result [OF s]
  have "\<not> k < length hc"
  proof
    assume "k < length hc"
    with r full show False by auto
  qed
  with r have "k = length hc" "hc' = hc" by auto
  with s pid show ?thesis by (simp add: force_hcd_device_descriptor_def)
qed

lemma init_device_root_no_bus:
  assumes "force_hcd_device_descriptor hos hc (dev\<lparr>device_address := 1, port_number := 0\<rparr>)
      (priv\<lparr>port := 0, depth := 0\<rparr>)
     = (r, dev\<lparr>device_address := 1, port_number := 0\<rparr>, priv\<lparr>port := 0, depth := 0\<rparr>, hc)"
    and "bus_number dev = 0"
  shows "fst (init_device os hos hc dev priv None 0) = LIBUSB_ERROR_NOT_FOUND"
  using assms by (simp add: init_device_def)

text \<open>
  C7.  With a controller table of at most 255 slots, a successful call for the host
  controller \<open>hcid\<close> yields bus number \<open>k + 1\<close>, where \<open>k\<close> is the slot of the table
  that holds \<open>hcid\<close>: either it held it before, and the table is unchanged, or it is the
  first free slot, every earlier slot holding another controller (first-seen order).
  After that, whatever further calls are made, every call for \<open>hcid\<close> succeeds with
  the same bus number and leaves the table as it is.  When every slot holds another
  controller, the call fails, assigns no bus number and changes nothing, and
  \<open>init_device\<close> of that root hub fails.  When a slot is free or already holds
  \<open>hcid\<close> (and the string copy succeeds), the call succeeds.
\<close>

theorem host_controller_bus_number_assignment:
  assumes len: "length hc \<le> 255" and pid: "get_parent_device_id os = Some hcid"
  shows
    "(fst (force_hcd_device_descriptor os hc dev priv) = LIBUSB_SUCCESS \<longrightarrow>
        (\<exists>k<length hc.
           unat (bus_number (fst (snd (force_hcd_device_descriptor os hc dev priv)))) = k + 1
           \<and> first_at (snd (snd (snd (force_hcd_device_descriptor os hc dev priv)))) hcid k
           \<and> (\<forall>j<k. hc ! j \<noteq> None \<and> hc ! j \<noteq> Some hcid)
           \<and> (hc ! k = Some hcid
                 \<and> snd (snd (snd (force_hcd_device_descriptor os hc dev priv))) = hc
               \<or> hc ! k = None
                 \<and> snd (snd (snd (force_hcd_device_descriptor os hc dev priv)))
                     = hc[k := Some hcid]))
        \<and> (\<forall>runs os2 dev2 priv2. get_parent_device_id os2 = Some hcid \<longrightarrow>
             fst (force_hcd_device_descriptor os2
                   (hc_run (snd (snd (snd (force_hcd_device_descriptor os hc dev priv)))) runs)
                   dev2 priv2) = LIBUSB_SUCCESS
             \<and> bus_number (fst (snd (force_hcd_device_descriptor os2
                   (hc_run (snd (snd (snd (force_hcd_device_descriptor os hc dev priv)))) runs)
                   dev2 priv2)))
                 = bus_number (fst (snd (force_hcd_device_descriptor os hc dev priv)))
             \<and> snd (snd (snd (force_hcd_device_descriptor os2
                   (hc_run (snd (snd (snd (force_hcd_device_descriptor os hc dev priv)))) runs)
                   dev2 priv2)))
                 = hc_run (snd (snd (snd (force_hcd_device_descriptor os hc dev priv)))) runs))
     \<and> ((\<forall>j<length hc. hc ! j \<noteq> None \<and> hc ! j \<noteq> Some hcid) \<longrightarrow>
          force_hcd_device_descriptor os hc dev priv = (LIBUSB_ERROR_NO_DEVICE, dev, priv, hc)
          \<and> (bus_number dev = 0 \<longrightarrow>
                fst (init_device hos os hc dev priv None 0) = LIBUSB_ERROR_NOT_FOUND))
     \<and> (strdup_ok os \<and> (\<exists>j<length hc. hc ! j = None \<or> hc ! j = Some hcid) \<longrightarrow>
          fst (force_hcd_device_descriptor os hc dev priv) = LIBUSB_SUCCESS)"
proof (intro conjI impI)
  let ?F = "force_hcd_device_descriptor os hc dev priv"
  let ?hc' = "snd (snd (snd ?F))"
  assume ok: "fst ?F = LIBUSB_SUCCESS"
  from force_hcd_success [OF ok pid] obtain k where
    k: "first_at ?hc' hcid k" "bus_number (fst (snd ?F)) = of_nat (k + 1)"
      "\<forall>j<k. hc ! j \<noteq> None \<and> hc ! j \<noteq> Some hcid"
      "hc ! k = Some hcid \<and> ?hc' = hc \<or> hc ! k = None \<and> ?hc' = hc[k := Some hcid]"
    by blast
  from k(1) have kl: "k < length hc" by (simp add: first_at_def force_hcd_keeps(1))
  with len have "k < 255" by simp
  with k(2) have u: "unat (bus_number (fst (snd ?F))) = k + 1" by (simp only: unat_bus_number)
  from kl u k show "\<exists>k<length hc.
           unat (bus_number (fst (snd ?F))) = k + 1 \<and> first_at ?hc' hcid k
           \<and> (\<forall>j<k. hc ! j \<noteq> None \<and> hc ! j \<noteq> Some hcid)
           \<and> (hc ! k = Some hcid \<and> ?hc' = hc \<or> hc ! k = None \<and> ?hc' = hc[k := Some hcid])"
    by blast
  show "\<forall>runs os2 dev2 priv2. get_parent_device_id os2 = Some hcid \<longrightarrow>
             fst (force_hcd_device_descriptor os2 (hc_run ?hc' runs) dev2 priv2) = LIBUSB_SUCCESS
             \<and> bus_number (fst (snd (force_hcd_device_descriptor os2 (hc_run ?hc' runs)
                   dev2 priv2))) = bus_number (fst (snd ?F))
             \<and> snd (snd (snd (force_hcd_device_descriptor os2 (hc_run ?hc' runs) dev2 priv2)))
                 = hc_run ?hc' runs"
  proof (intro allI impI)
    fix runs and os2 :: hcd_os and dev2 :: libusb_device and priv2 :: windows_device_priv
    assume p2: "get_parent_device_id os2 = Some hcid"
    from k(1) have "first_at (hc_run ?hc' runs) hcid k" by (rule hc_run_keeps(2))
    from force_hcd_first_at [OF this p2] k(2)
    show "fst (force_hcd_device_descriptor os2 (hc_run ?hc' runs) dev2 priv2) = LIBUSB_SUCCESS
             \<and> bus_number (fst (snd (force_hcd_device_descriptor os2 (hc_run ?hc' runs)
                   dev2 priv2))) = bus_number (fst (snd ?F))
             \<and> snd (snd (snd (force_hcd_device_descriptor os2 (hc_run ?hc' runs) dev2 priv2)))
                 = hc_run ?hc' runs"
      by simp
  qed
next
  assume full: "\<forall>j<length hc. hc ! j \<noteq> None \<and> hc ! j \<noteq> Some hcid"
  from force_hcd_full [OF full pid]
  show "force_hcd_device_descriptor os hc dev priv = (LIBUSB_ERROR_NO_DEVICE, dev, priv, hc)" .
  assume "bus_number dev = 0"
  with force_hcd_full [OF full pid, of "dev\<lparr>device_address := 1, port_number := 0\<rparr>"
      "priv\<lparr>port := 0, depth := 0\<rparr>"]
  show "fst (init_device hos os hc dev priv None 0) = LIBUSB_ERROR_NOT_FOUND"
    by (intro init_device_root_no_bus)
next
  let ?dup = "if strdup_ok os then Some hcid else None"
  assume a: "strdup_ok os \<and> (\<exists>j<length hc. hc ! j = None \<or> hc ! j = Some hcid)"
  obtain k hc' where s: "hc_scan hc hcid ?dup 0 = (k, hc')" by (metis surj_pair)
  note r = hc_scan_result [OF s]
  have kl: "k < length hc"
  proof (rule ccontr)
    assume "\<not> k < length hc"
    with r have "\<forall>j<length hc. hc ! j \<noteq> None \<and> hc ! j \<noteq> Some hcid" by auto
    with a show False by auto
  qed
  with r a have "hc' ! k = Some hcid" "length hc' = length hc" by auto
  with s pid kl show "fst (force_hcd_device_descriptor os hc dev priv) = LIBUSB_SUCCESS"
    by (simp add: force_hcd_projections)
qed

lemma example_force_hcd:
  "force_hcd_device_descriptor example_hcd_os [None, None] fresh_dev fresh_priv
   = (LIBUSB_SUCCESS, fresh_dev\<lparr>bus_number := 1, num_configurations := 1\<rparr>,
      fresh_priv\<lparr>active_config := 1,
        dev_descriptor := \<lparr>bLength = 18, bDescriptorType = 1, bDeviceClass = 9,
          idVendor = 0x8086, idProduct = 0x1e31, bNumConfigurations = 1\<rparr>\<rparr>,
      [Some ''PCI#VEN_8086&DEV_1E31'', None])"
  "force_hcd_device_descriptor example_hcd_os2 [Some ''PCI#VEN_8086&DEV_1E31'', None]
     fresh_dev fresh_priv
   = (LIBUSB_SUCCESS, fresh_dev\<lparr>bus_number := 2, num_configurations := 1\<rparr>,
      fresh_priv\<lparr>active_config := 1,
        dev_descriptor := \<lparr>bLength = 18, bDescriptorType = 1, bDeviceClass = 9,
          idVendor = 0x1b21, idProduct = 0x1142, bNumConfigurations = 1\<rparr>\<rparr>,
      [Some ''PCI#VEN_8086&DEV_1E31'', Some ''PCI#VEN_1B21&DEV_1142''])"
  by (simp_all add: force_hcd_device_descriptor_def example_hcd_os_def example_hcd_os2_def
      fresh_dev_def fresh_priv_def Let_def hc_scan.simps)

theorem host_controller_bus_number_assignment_witness:
  "fst (force_hcd_device_descriptor example_hcd_os [None, None] fresh_dev fresh_priv)
     = LIBUSB_SUCCESS
   \<and> bus_number (fst (snd (force_hcd_device_descriptor example_hcd_os [None, None]
        fresh_dev fresh_priv))) = 1
   \<and> hc_run [Some ''PCI#VEN_8086&DEV_1E31'', None] [(example_hcd_os2, fresh_dev, fresh_priv)]
       = [Some ''PCI#VEN_8086&DEV_1E31'', Some ''PCI#VEN_1B21&DEV_1142'']
   \<and> bus_number (fst (snd (force_hcd_device_descriptor example_hcd_os2
        [Some ''PCI#VEN_8086&DEV_1E31'', None] fresh_dev fresh_priv))) = 2
   \<and> fst (force_hcd_device_descriptor example_hcd_os
        [Some ''PCI#VEN_8086&DEV_1E31'', Some ''PCI#VEN_1B21&DEV_1142''] fresh_dev fresh_priv)
       = LIBUSB_SUCCESS
   \<and> bus_number (fst (snd (force_hcd_device_descriptor example_hcd_os
        [Some ''PCI#VEN_8086&DEV_1E31'', Some ''PCI#VEN_1B21&DEV_1142''] fresh_dev fresh_priv)))
       = 1
   \<and> force_hcd_device_descriptor example_hcd_os3
        [Some ''PCI#VEN_8086&DEV_1E31'', Some ''PCI#VEN_1B21&DEV_1142''] fresh_dev fresh_priv
       = (LIBUSB_ERROR_NO_DEVICE, fresh_dev, fresh_priv,
          [Some ''PCI#VEN_8086&DEV_1E31'', Some ''PCI#VEN_1B21&DEV_1142''])
   \<and> fst (init_device (example_hub_os 5) example_hcd_os3
        [Some ''PCI#VEN_8086&DEV_1E31'', Some ''PCI#VEN_1B21&DEV_1142''] fresh_dev fresh_priv
        None 0) = LIBUSB_ERROR_NOT_FOUND"
proof -
  let ?A = "''PCI#VEN_8086&DEV_1E31''" and ?B = "''PCI#VEN_1B21&DEV_1142''"
  have run: "hc_run [Some ?A, None] [(example_hcd_os2, fresh_dev, fresh_priv)]
      = [Some ?A, Some ?B]"
    by (simp add: example_force_hcd)
  have a: "fst (force_hcd_device_descriptor example_hcd_os [None, None] fresh_dev fresh_priv)
     = LIBUSB_SUCCESS"
    "bus_number (fst (snd (force_hcd_device_descriptor example_hcd_os [None, None]
        fresh_dev fresh_priv))) = 1"
    "snd (snd (snd (force_hcd_device_descriptor example_hcd_os [None, None]
        fresh_dev fresh_priv))) = [Some ?A, None]"
    by (simp_all add: example_force_hcd)
  have b: "bus_number (fst (snd (force_hcd_device_descriptor example_hcd_os2
        [Some ?A, None] fresh_dev fresh_priv))) = 2"
    by (simp add: example_force_hcd)
  from host_controller_bus_number_assignment [of "[None, None]" example_hcd_os ?A
      fresh_dev fresh_priv "example_hub_os 5"] a
  have "\<forall>runs os2 dev2 priv2. get_parent_device_id os2 = Some ?A \<longrightarrow>
      fst (force_hcd_device_descriptor os2 (hc_run [Some ?A, None] runs) dev2 priv2)
        = LIBUSB_SUCCESS
      \<and> bus_number (fst (snd (force_hcd_device_descriptor os2 (hc_run [Some ?A, None] runs)
           dev2 priv2))) = 1"
    by (simp add: example_hcd_os_def)
  from this [rule_format, of example_hcd_os "[(example_hcd_os2, fresh_dev, fresh_priv)]"
      fresh_dev fresh_priv] run
  have c: "fst (force_hcd_device_descriptor example_hcd_os [Some ?A, Some ?B] fresh_dev
        fresh_priv) = LIBUSB_SUCCESS
      \<and> bus_number (fst (snd (force_hcd_device_descriptor example_hcd_os [Some ?A, Some ?B]
           fresh_dev fresh_priv))) = 1"
    by (simp add: example_hcd_os_def)
  from host_controller_bus_number_assignment [of "[Some ?A, Some ?B]" example_hcd_os3
      "''PCI#VEN_1033&DEV_0194''" fresh_dev fresh_priv "example_hub_os 5"]
  have d: "force_hcd_device_descriptor example_hcd_os3 [Some ?A, Some ?B] fresh_dev fresh_priv
       = (LIBUSB_ERROR_NO_DEVICE, fresh_dev, fresh_priv, [Some ?A, Some ?B])
     \<and> fst (init_device (example_hub_os 5) example_hcd_os3 [Some ?A, Some ?B] fresh_dev
          fresh_priv None 0) = LIBUSB_ERROR_NOT_FOUND"
    by (simp add: example_hcd_os3_def fresh_dev_def less_Suc_eq)
  from a run b c d show ?thesis by simp
qed

subsection \<open>Composite interfaces\<close>

lemma cstr_at_simps:
  "i < length s \<Longrightarrow> cstr_at s i = Some (s ! i)"
  "cstr_at s (length s) = Some (CHR 0x00)"
  by (simp_all add: cstr_at_def)

lemma mi_scan_skip:
  assumes "CHR ''M'' \<notin> set pre" "CHR 0x00 \<notin> set pre"
  shows "i \<le> length pre \<Longrightarrow> mi_scan (pre @ rest) i = mi_scan (pre @ rest) (length pre)"
proof (induction "length pre - i" arbitrary: i)
  case 0
  then show ?case by simp
next
  case (Suc n)
  then have lt: "i < length pre" by simp
  then have "pre ! i \<in> set pre" by simp
  with assms have c: "pre ! i \<noteq> CHR ''M''" "pre ! i \<noteq> CHR 0x00" by auto
  from lt have "cstr_at (pre @ rest) i = Some (pre ! i)"
    by (simp add: cstr_at_def nth_append)
  with c have "mi_scan (pre @ rest) i = mi_scan (pre @ rest) (i + 1)"
    by (subst mi_scan.simps) simp
  also have "\<dots> = mi_scan (pre @ rest) (length pre)"
    using Suc lt by (intro Suc.hyps(1)) simp_all
  finally show ?case .
qed

lemma mi_scan_marker:
  "mi_scan (pre @ CHR ''M'' # CHR ''I'' # CHR ''_'' # d1 # d2 # post) (length pre)
     = Some ((char_int d1 - char_int CHR ''0'') * 10 + (char_int d2 - char_int CHR ''0''),
             length pre + 4)"
  by (subst mi_scan.simps) (simp add: cstr_at_def nth_append)

lemma mi_scan_found:
  assumes "CHR ''M'' \<notin> set pre" "CHR 0x00 \<notin> set pre"
  shows "mi_scan (pre @ ''MI_'' @ [d1, d2] @ post) 0
     = Some ((char_int d1 - char_int CHR ''0'') * 10 + (char_int d2 - char_int CHR ''0''),
             length pre + 4)"
  using mi_scan_skip [OF assms, of 0 "''MI_'' @ [d1, d2] @ post"] mi_scan_marker [of pre d1 d2 post]
  by simp

lemma mi_scan_absent:
  assumes "CHR ''M'' \<notin> set s" "CHR 0x00 \<notin> set s"
  shows "mi_scan s 0 = Some (0, length s)"
proof -
  have "mi_scan s 0 = mi_scan s (length s)"
    using mi_scan_skip [OF assms, of 0 "[]"] by simp
  also have "\<dots> = Some (0, length s)"
    by (subst mi_scan.simps) (simp add: cstr_at_def)
  finally show ?thesis .
qed

lemma mi_scan_result:
  "mi_scan s i = Some (n, j) \<Longrightarrow>
     (n = 0 \<and> cstr_at s j = Some (CHR 0x00))
     \<or> (\<exists>k. i \<le> k \<and> j = k + 4 \<and> marker_at s k)"
proof (induction s i rule: mi_scan.induct)
  case (1 s i)
  note sc = mi_scan.simps [of s i]
  from "1.prems" obtain c where c: "cstr_at s i = Some c"
    by (cases "cstr_at s i") (simp_all add: sc)
  show ?case
  proof (cases "c = CHR 0x00")
    case True
    with c "1.prems" show ?thesis by (simp add: sc)
  next
    case nz: False
    with c have il: "i < length s" by (auto simp: cstr_at_def split: if_splits)
    with c have si: "s ! i = c" by (simp add: cstr_at_def)
    show ?thesis
    proof (cases "c = CHR ''M''")
      case False
      with c nz "1.prems" have "mi_scan s (i + 1) = Some (n, j)" by (simp add: sc)
      from "1.IH"(1) [OF c nz False this] show ?thesis by auto
    next
      case m: True
      from "1.prems" c nz m obtain c1 where c1: "cstr_at s (i + 1) = Some c1"
        by (cases "cstr_at s (i + 1)") (simp_all add: sc)
      show ?thesis
      proof (cases "c1 = CHR ''I''")
        case False
        with c c1 nz m "1.prems" have "mi_scan s (i + 2) = Some (n, j)" by (simp add: sc)
        from "1.IH"(2) [OF c nz _ c1 False this] m show ?thesis by auto
      next
        case i1: True
        from "1.prems" c nz m c1 i1 obtain c2 where c2: "cstr_at s (i + 2) = Some c2"
          by (cases "cstr_at s (i + 2)") (simp_all add: sc)
        show ?thesis
        proof (cases "c2 = CHR ''_''")
          case False
          with c c1 c2 nz m i1 "1.prems" have "mi_scan s (i + 3) = Some (n, j)"
            by (simp add: sc)
          from "1.IH"(3) [OF c nz _ c1 _ c2 False this] m i1 show ?thesis by auto
        next
          case u: True
          from c1 i1 have l1: "i + 1 < length s" "s ! (i + 1) = CHR ''I''"
            by (auto simp: cstr_at_def split: if_splits)
          from c2 u have l2: "i + 2 < length s" "s ! (i + 2) = CHR ''_''"
            by (auto simp: cstr_at_def split: if_splits)
          from "1.prems" c nz m c1 i1 c2 u have "j = i + 4"
            by (auto simp: sc split: option.splits)
          with l1 l2 si m show ?thesis by (auto simp: marker_at_def)
        qed
      qed
    qed
  qed
qed


lemma set_composite_interface_slot:
  assumes "dev_apib priv = USB_API_COMPOSITE"
    and "mi_scan dev_id 0 = Some (int n, j)" and "cstr_at dev_id j = Some c"
    and "n < length (usb_interface priv)"
  shows "set_composite_interface priv new_path dev_id api sub_api_no calloc_ok =
     (if path (usb_interface priv ! n) \<noteq> None \<and> api = USB_API_HID
      then Some (LIBUSB_ERROR_ACCESS, priv, c = CHR 0x00)
      else if api = USB_API_HID \<and> hid priv = None
      then (if calloc_ok
            then Some (LIBUSB_SUCCESS,
                   (install_leaf priv n new_path api sub_api_no)
                     \<lparr>hid := Some \<lparr>nb_interfaces = 0\<rparr>\<rparr>, c = CHR 0x00)
            else Some (LIBUSB_ERROR_NO_MEM, install_leaf priv n new_path api sub_api_no,
                   c = CHR 0x00))
      else Some (LIBUSB_SUCCESS, install_leaf priv n new_path api sub_api_no, c = CHR 0x00))"
  using assms by (simp add: set_composite_interface_def install_leaf_def Let_def)

lemma unset_composite_interface_slot:
  assumes "dev_apib priv = USB_API_COMPOSITE"
    and "mi_scan dev_id 0 = Some (int n, j)" and "cstr_at dev_id j = Some c"
    and "n < length (usb_interface priv)"
  shows "unset_composite_interface priv dev_id =
     (if path (usb_interface priv ! n) = None then Some (priv, c = CHR 0x00)
      else Some (priv\<lparr>usb_interface := (usb_interface priv)
                   [n := (usb_interface priv ! n)\<lparr>path := None, apib := USB_API_UNSUPPORTED,
                            sub_api := SUB_API_NOTSET\<rparr>],
                 hid := (if list_ex (\<lambda>x. apib x = USB_API_HID)
                            ((usb_interface priv)
                               [n := (usb_interface priv ! n)\<lparr>path := None,
                                  apib := USB_API_UNSUPPORTED, sub_api := SUB_API_NOTSET\<rparr>])
                         then hid priv else None)\<rparr>, c = CHR 0x00))"
  using assms by (simp add: unset_composite_interface_def Let_def)

lemma digit_values:
  "char_int CHR ''0'' = 48" "char_int CHR ''3'' = 51"
  by (simp_all add: char_int_def)

lemma scan_mi00:
  assumes "CHR ''M'' \<notin> set pre" "CHR 0x00 \<notin> set pre"
  shows "mi_scan (pre @ ''MI_00'' @ post) 0 = Some (int 0, length pre + 4)"
    "cstr_at (pre @ ''MI_00'' @ post) (length pre + 4) = Some CHR ''0''"
  using mi_scan_found [OF assms, of "CHR ''0''" "CHR ''0''" post]
  by (simp_all add: digit_values cstr_at_def nth_append)

lemma scan_mi03:
  assumes "CHR ''M'' \<notin> set pre" "CHR 0x00 \<notin> set pre"
  shows "mi_scan (pre @ ''MI_03'' @ post) 0 = Some (int 3, length pre + 4)"
    "cstr_at (pre @ ''MI_03'' @ post) (length pre + 4) = Some CHR ''3''"
  using mi_scan_found [OF assms, of "CHR ''0''" "CHR ''3''" post]
  by (simp_all add: digit_values cstr_at_def nth_append)


lemma install_leaf_fields [simp]:
  "dev_apib (install_leaf priv n p a sa) = dev_apib priv"
  "hid (install_leaf priv n p a sa) = hid priv"
  "length (usb_interface (install_leaf priv n p a sa)) = length (usb_interface priv)"
  "n < length (usb_interface priv) \<Longrightarrow> path (usb_interface (install_leaf priv n p a sa) ! n) = Some p"
  "n < length (usb_interface priv) \<Longrightarrow> apib (usb_interface (install_leaf priv n p a sa) ! n) = a"
  "i \<noteq> n \<Longrightarrow> usb_interface (install_leaf priv n p a sa) ! i = usb_interface priv ! i"
  by (simp_all add: install_leaf_def)

lemma set_composite_interface_empty_slot:
  assumes "dev_apib priv = USB_API_COMPOSITE"
    and "mi_scan dev_id 0 = Some (int n, j)" and "cstr_at dev_id j = Some c" and "c \<noteq> CHR 0x00"
    and "n < length (usb_interface priv)" and "path (usb_interface priv ! n) = None"
  shows "\<exists>r priv'. set_composite_interface priv new_path dev_id api sub_api_no calloc_ok
        = Some (r, priv', False)
      \<and> dev_apib priv' = USB_API_COMPOSITE
      \<and> usb_interface priv' = usb_interface (install_leaf priv n new_path api sub_api_no)"
  using set_composite_interface_slot [OF assms(1,2,3,5), of new_path api sub_api_no calloc_ok]
    assms(1,4,6)
  by (cases calloc_ok) auto

lemma composite_interface_slots_scenario:
  assumes comp: "dev_apib priv = USB_API_COMPOSITE"
    and empty: "\<forall>i<length (usb_interface priv). path (usb_interface priv ! i) = None"
    and len: "3 < length (usb_interface priv)"
    and pre0: "CHR ''M'' \<notin> set pre0" "CHR 0x00 \<notin> set pre0"
    and pre3: "CHR ''M'' \<notin> set pre3" "CHR 0x00 \<notin> set pre3"
  shows "\<exists>r1 priv1 r2 priv2 priv3.
      set_composite_interface priv p0 (pre0 @ ''MI_00'' @ post0) api0 sub0 ok0
        = Some (r1, priv1, False)
      \<and> set_composite_interface priv1 p3 (pre3 @ ''MI_03'' @ post3) api3 sub3 ok3
        = Some (r2, priv2, False)
      \<and> length (usb_interface priv2) = length (usb_interface priv)
      \<and> path (usb_interface priv2 ! 0) = Some p0 \<and> path (usb_interface priv2 ! 3) = Some p3
      \<and> path (usb_interface priv2 ! 1) = None \<and> path (usb_interface priv2 ! 2) = None
      \<and> (\<forall>i<length (usb_interface priv). i \<noteq> 0 \<and> i \<noteq> 3
            \<longrightarrow> usb_interface priv2 ! i = usb_interface priv ! i)
      \<and> unset_composite_interface priv2 (pre0 @ ''MI_00'' @ post0) = Some (priv3, False)
      \<and> path (usb_interface priv3 ! 0) = None
      \<and> (\<forall>i<length (usb_interface priv). i \<noteq> 0
            \<longrightarrow> usb_interface priv3 ! i = usb_interface priv2 ! i)"
proof -
  let ?id0 = "pre0 @ ''MI_00'' @ post0" and ?id3 = "pre3 @ ''MI_03'' @ post3"
  note s0 = scan_mi00 [OF pre0, of post0] and s3 = scan_mi03 [OF pre3, of post3]
  have emp: "path (usb_interface priv ! i) = None" if "i \<le> 3" for i
  proof -
    from that len have "i < length (usb_interface priv)" by simp
    with empty show ?thesis by blast
  qed
  from len emp [of 0] have e0: "0 < length (usb_interface priv)"
    "path (usb_interface priv ! 0) = None"
    by auto
  from set_composite_interface_empty_slot [OF comp s0 _ e0, of p0 api0 sub0 ok0]
  obtain r1 priv1 where 1:
    "set_composite_interface priv p0 ?id0 api0 sub0 ok0 = Some (r1, priv1, False)"
    "dev_apib priv1 = USB_API_COMPOSITE"
    "usb_interface priv1 = usb_interface (install_leaf priv 0 p0 api0 sub0)"
    by auto
  from 1(3) len emp [of 3] have e3: "3 < length (usb_interface priv1)"
    "path (usb_interface priv1 ! 3) = None"
    by simp_all
  from set_composite_interface_empty_slot [OF 1(2) s3 _ e3, of p3 api3 sub3 ok3]
  obtain r2 priv2 where 2:
    "set_composite_interface priv1 p3 ?id3 api3 sub3 ok3 = Some (r2, priv2, False)"
    "dev_apib priv2 = USB_API_COMPOSITE"
    "usb_interface priv2 = usb_interface (install_leaf priv1 3 p3 api3 sub3)"
    by auto
  have l2: "length (usb_interface priv2) = length (usb_interface priv)"
    using 1(3) 2(3) by simp
  have nth2: "usb_interface priv2 ! i = usb_interface priv ! i" if "i \<noteq> 0" "i \<noteq> 3" for i
    using that 1(3) 2(3) by simp
  have p0: "path (usb_interface priv2 ! 0) = Some p0"
    using 1(3) 2(3) e0 by simp
  have p3: "path (usb_interface priv2 ! 3) = Some p3"
    using 2(3) e3 by simp
  have p12: "path (usb_interface priv2 ! 1) = None" "path (usb_interface priv2 ! 2) = None"
    using nth2 [of 1] nth2 [of 2] emp [of 1] emp [of 2] by simp_all
  from l2 len have l0: "0 < length (usb_interface priv2)" by auto
  from unset_composite_interface_slot [OF 2(2) s0 l0] p0
  obtain priv3 where 3: "unset_composite_interface priv2 ?id0 = Some (priv3, False)"
    "usb_interface priv3 = (usb_interface priv2)
       [0 := (usb_interface priv2 ! 0)\<lparr>path := None, apib := USB_API_UNSUPPORTED,
               sub_api := SUB_API_NOTSET\<rparr>]"
    by auto
  have c0: "path (usb_interface priv3 ! 0) = None" using 3(2) l0 by simp
  have oth: "usb_interface priv3 ! i = usb_interface priv2 ! i" if "i \<noteq> 0" for i
    using that 3(2) by simp
  from 1(1) 2(1) l2 p0 p3 p12 nth2 3(1) c0 oth show ?thesis by blast
qed

lemma set_composite_interface_default:
  assumes "dev_apib priv = USB_API_COMPOSITE"
    and "CHR ''M'' \<notin> set s" "CHR 0x00 \<notin> set s"
    and "0 < length (usb_interface priv)" "path (usb_interface priv ! 0) = None"
  shows "\<exists>r priv'. set_composite_interface priv new_path s api sub_api_no calloc_ok
        = Some (r, priv', True)
      \<and> path (usb_interface priv' ! 0) = Some new_path"
proof -
  have sc: "mi_scan s 0 = Some (int 0, length s)"
    using mi_scan_absent [OF assms(2,3)] by simp
  from set_composite_interface_slot [OF assms(1) sc cstr_at_simps(2) assms(4),
      of new_path api sub_api_no calloc_ok] assms(4,5)
  show ?thesis by (cases calloc_ok) auto
qed

text \<open>
  Instance ids as Windows forms them.  The interface ordinal of a composite leaf is
  read from its instance id: when the
  id has the form \<open>pre @ MI_ @ [d1, d2] @ post\<close>, as Windows forms the ids of the
  children of a composite device (nothing before the marker is an \<open>M\<close>), the ordinal is
  ten times the first digit plus the second; whenever the scan ends on an id that holds
  no marker \<open>MI_\<close> the ordinal is 0 and the warning condition holds, and an id without
  any \<open>M\<close> is installed into slot 0 with the warning.  Installing the children \<open>MI_00\<close>
  and \<open>MI_03\<close> into a composite device with no slot set populates slots 0 and 3, leaves
  every other slot (so 1 and 2) as it was, without a warning; removing \<open>MI_00\<close> then
  clears slot 0 and leaves every other slot as it was.
\<close>

lemma composite_interface_ordinal_and_slots:
  "(CHR ''M'' \<notin> set pre \<and> CHR 0x00 \<notin> set pre \<longrightarrow>
      mi_scan (pre @ ''MI_'' @ [d1, d2] @ post) 0
        = Some ((char_int d1 - char_int CHR ''0'') * 10 + (char_int d2 - char_int CHR ''0''),
                length pre + 4))
   \<and> (mi_scan s 0 = Some (n, j) \<and> (\<forall>k. \<not> marker_at s k) \<longrightarrow>
        n = 0 \<and> cstr_at s j = Some (CHR 0x00))
   \<and> (dev_apib priv = USB_API_COMPOSITE \<and> CHR ''M'' \<notin> set s \<and> CHR 0x00 \<notin> set s
        \<and> 0 < length (usb_interface priv) \<and> path (usb_interface priv ! 0) = None \<longrightarrow>
        (\<exists>r priv'. set_composite_interface priv new_path s api sub_api_no calloc_ok
            = Some (r, priv', True)
          \<and> path (usb_interface priv' ! 0) = Some new_path))
   \<and> (dev_apib priv = USB_API_COMPOSITE
        \<and> (\<forall>i<length (usb_interface priv). path (usb_interface priv ! i) = None)
        \<and> 3 < length (usb_interface priv)
        \<and> CHR ''M'' \<notin> set pre0 \<and> CHR 0x00 \<notin> set pre0
        \<and> CHR ''M'' \<notin> set pre3 \<and> CHR 0x00 \<notin> set pre3 \<longrightarrow>
        (\<exists>r1 priv1 r2 priv2 priv3.
           set_composite_interface priv p0 (pre0 @ ''MI_00'' @ post0) api0 sub0 ok0
             = Some (r1, priv1, False)
           \<and> set_composite_interface priv1 p3 (pre3 @ ''MI_03'' @ post3) api3 sub3 ok3
             = Some (r2, priv2, False)
           \<and> length (usb_interface priv2) = length (usb_interface priv)
           \<and> path (usb_interface priv2 ! 0) = Some p0 \<and> path (usb_interface priv2 ! 3) = Some p3
           \<and> path (usb_interface priv2 ! 1) = None \<and> path (usb_interface priv2 ! 2) = None
           \<and> (\<forall>i<length (usb_interface priv). i \<noteq> 0 \<and> i \<noteq> 3
                 \<longrightarrow> usb_interface priv2 ! i = usb_interface priv ! i)
           \<and> unset_composite_interface priv2 (pre0 @ ''MI_00'' @ post0) = Some (priv3, False)
           \<and> path (usb_interface priv3 ! 0) = None
           \<and> (\<forall>i<length (usb_interface priv). i \<noteq> 0
                 \<longrightarrow> usb_interface priv3 ! i = usb_interface priv2 ! i)))"
proof (intro conjI impI)
  assume "CHR ''M'' \<notin> set pre \<and> CHR 0x00 \<notin> set pre"
  then show "mi_scan (pre @ ''MI_'' @ [d1, d2] @ post) 0
        = Some ((char_int d1 - char_int CHR ''0'') * 10 + (char_int d2 - char_int CHR ''0''),
                length pre + 4)"
    by (intro mi_scan_found) simp_all
next
  assume a: "mi_scan s 0 = Some (n, j) \<and> (\<forall>k. \<not> marker_at s k)"
  with mi_scan_result [of s 0 n j] show "n = 0" "cstr_at s j = Some (CHR 0x00)"
    by blast+
next
  assume "dev_apib priv = USB_API_COMPOSITE \<and> CHR ''M'' \<notin> set s \<and> CHR 0x00 \<notin> set s
        \<and> 0 < length (usb_interface priv) \<and> path (usb_interface priv ! 0) = None"
  then show "\<exists>r priv'. set_composite_interface priv new_path s api sub_api_no calloc_ok
            = Some (r, priv', True)
          \<and> path (usb_interface priv' ! 0) = Some new_path"
    by (intro set_composite_interface_default) simp_all
next
  assume "dev_apib priv = USB_API_COMPOSITE
        \<and> (\<forall>i<length (usb_interface priv). path (usb_interface priv ! i) = None)
        \<and> 3 < length (usb_interface priv)
        \<and> CHR ''M'' \<notin> set pre0 \<and> CHR 0x00 \<notin> set pre0
        \<and> CHR ''M'' \<notin> set pre3 \<and> CHR 0x00 \<notin> set pre3"
  then show "\<exists>r1 priv1 r2 priv2 priv3.
           set_composite_interface priv p0 (pre0 @ ''MI_00'' @ post0) api0 sub0 ok0
             = Some (r1, priv1, False)
           \<and> set_composite_interface priv1 p3 (pre3 @ ''MI_03'' @ post3) api3 sub3 ok3
             = Some (r2, priv2, False)
           \<and> length (usb_interface priv2) = length (usb_interface priv)
           \<and> path (usb_interface priv2 ! 0) = Some p0 \<and> path (usb_interface priv2 ! 3) = Some p3
           \<and> path (usb_interface priv2 ! 1) = None \<and> path (usb_interface priv2 ! 2) = None
           \<and> (\<forall>i<length (usb_interface priv). i \<noteq> 0 \<and> i \<noteq> 3
                 \<longrightarrow> usb_interface priv2 ! i = usb_interface priv ! i)
           \<and> unset_composite_interface priv2 (pre0 @ ''MI_00'' @ post0) = Some (priv3, False)
           \<and> path (usb_interface priv3 ! 0) = None
           \<and> (\<forall>i<length (usb_interface priv). i \<noteq> 0
                 \<longrightarrow> usb_interface priv3 ! i = usb_interface priv2 ! i)"
    by (intro composite_interface_slots_scenario) simp_all
qed

lemma example_ids:
  "id_mi00 = id_pre @ ''MI_00'' @ id_post0" "id_mi03 = id_pre @ ''MI_03'' @ id_post3"
  "CHR ''M'' \<notin> set id_pre" "CHR 0x00 \<notin> set id_pre"
  by (simp_all add: id_mi00_def id_mi03_def id_pre_def id_post0_def id_post3_def)

lemma composite_priv_fields:
  "dev_apib composite_priv = USB_API_COMPOSITE"
  "length (usb_interface composite_priv) = 32"
  "i < 32 \<Longrightarrow> usb_interface composite_priv ! i = unset_interface"
  "path unset_interface = None"
  "hid composite_priv = None"
  by (simp_all add: composite_priv_def unset_interface_def)

lemma composite_interface_ordinal_and_slots_example:
  "mi_scan id_mi03 0 = Some (3, 26)
   \<and> (\<exists>r priv'. set_composite_interface composite_priv ''path'' ''USB#VID_046D&PID_C52B''
          USB_API_WINUSBX 0 True = Some (r, priv', True)
        \<and> path (usb_interface priv' ! 0) = Some ''path'')
   \<and> (\<exists>r1 priv1 r2 priv2 priv3.
         set_composite_interface composite_priv ''path0'' id_mi00 USB_API_WINUSBX 0 True
           = Some (r1, priv1, False)
         \<and> set_composite_interface priv1 ''path3'' id_mi03 USB_API_HID (- 1) True
           = Some (r2, priv2, False)
         \<and> path (usb_interface priv2 ! 0) = Some ''path0''
         \<and> path (usb_interface priv2 ! 3) = Some ''path3''
         \<and> path (usb_interface priv2 ! 1) = None \<and> path (usb_interface priv2 ! 2) = None
         \<and> unset_composite_interface priv2 id_mi00 = Some (priv3, False)
         \<and> path (usb_interface priv3 ! 0) = None
         \<and> usb_interface priv3 ! 3 = usb_interface priv2 ! 3)"
proof -
  note t = composite_interface_ordinal_and_slots [where pre = id_pre and ?d1.0 = "CHR ''0''"
      and ?d2.0 = "CHR ''3''" and post = id_post3 and s = "''USB#VID_046D&PID_C52B''"
      and priv = composite_priv and new_path = "''path''" and api = USB_API_WINUSBX
      and sub_api_no = 0 and calloc_ok = True and ?pre0.0 = id_pre and ?pre3.0 = id_pre
      and ?p0.0 = "''path0''" and ?post0.0 = id_post0 and ?api0.0 = USB_API_WINUSBX
      and ?sub0.0 = 0 and ?ok0.0 = True and ?p3.0 = "''path3''" and ?post3.0 = id_post3
      and ?api3.0 = USB_API_HID and ?sub3.0 = "- 1" and ?ok3.0 = True]
  have 1: "mi_scan id_mi03 0 = Some (3, 26)"
    using t [THEN conjunct1] example_ids
    by (simp add: char_int_def id_pre_def)
  have 2: "\<exists>r priv'. set_composite_interface composite_priv ''path'' ''USB#VID_046D&PID_C52B''
          USB_API_WINUSBX 0 True = Some (r, priv', True)
        \<and> path (usb_interface priv' ! 0) = Some ''path''"
    using t [THEN conjunct2, THEN conjunct2, THEN conjunct1]
    by (simp add: composite_priv_fields)
  have 3: "\<exists>r1 priv1 r2 priv2 priv3.
         set_composite_interface composite_priv ''path0'' id_mi00 USB_API_WINUSBX 0 True
           = Some (r1, priv1, False)
         \<and> set_composite_interface priv1 ''path3'' id_mi03 USB_API_HID (- 1) True
           = Some (r2, priv2, False)
         \<and> length (usb_interface priv2) = length (usb_interface composite_priv)
         \<and> path (usb_interface priv2 ! 0) = Some ''path0''
         \<and> path (usb_interface priv2 ! 3) = Some ''path3''
         \<and> path (usb_interface priv2 ! 1) = None \<and> path (usb_interface priv2 ! 2) = None
         \<and> (\<forall>i<length (usb_interface composite_priv). i \<noteq> 0 \<and> i \<noteq> 3
               \<longrightarrow> usb_interface priv2 ! i = usb_interface composite_priv ! i)
         \<and> unset_composite_interface priv2 id_mi00 = Some (priv3, False)
         \<and> path (usb_interface priv3 ! 0) = None
         \<and> (\<forall>i<length (usb_interface composite_priv). i \<noteq> 0
               \<longrightarrow> usb_interface priv3 ! i = usb_interface priv2 ! i)"
    using t [THEN conjunct2, THEN conjunct2, THEN conjunct2]
    by (simp add: composite_priv_fields example_ids)
  from 3 obtain r1 priv1 r2 priv2 priv3 where w:
    "set_composite_interface composite_priv ''path0'' id_mi00 USB_API_WINUSBX 0 True
       = Some (r1, priv1, False)"
    "set_composite_interface priv1 ''path3'' id_mi03 USB_API_HID (- 1) True
       = Some (r2, priv2, False)"
    "path (usb_interface priv2 ! 0) = Some ''path0''"
    "path (usb_interface priv2 ! 3) = Some ''path3''"
    "path (usb_interface priv2 ! 1) = None" "path (usb_interface priv2 ! 2) = None"
    "unset_composite_interface priv2 id_mi00 = Some (priv3, False)"
    "path (usb_interface priv3 ! 0) = None"
    "\<forall>i<length (usb_interface composite_priv). i \<noteq> 0
       \<longrightarrow> usb_interface priv3 ! i = usb_interface priv2 ! i"
    by blast
  from w(9) have "usb_interface priv3 ! 3 = usb_interface priv2 ! 3"
    by (simp add: composite_priv_fields)
  with w have "\<exists>r1 priv1 r2 priv2 priv3.
         set_composite_interface composite_priv ''path0'' id_mi00 USB_API_WINUSBX 0 True
           = Some (r1, priv1, False)
         \<and> set_composite_interface priv1 ''path3'' id_mi03 USB_API_HID (- 1) True
           = Some (r2, priv2, False)
         \<and> path (usb_interface priv2 ! 0) = Some ''path0''
         \<and> path (usb_interface priv2 ! 3) = Some ''path3''
         \<and> path (usb_interface priv2 ! 1) = None \<and> path (usb_interface priv2 ! 2) = None
         \<and> unset_composite_interface priv2 id_mi00 = Some (priv3, False)
         \<and> path (usb_interface priv3 ! 0) = None
         \<and> usb_interface priv3 ! 3 = usb_interface priv2 ! 3"
    by blast
  with 1 2 show ?thesis by blast
qed

subsection \<open>Installing a leaf into an occupied slot\<close>

lemma occupied_priv_fields:
  "dev_apib occupied_priv = USB_API_COMPOSITE"
  "0 < length (usb_interface occupied_priv)"
  "path (usb_interface occupied_priv ! 0) = Some ''path0''"
  "apib (usb_interface occupied_priv ! 0) = USB_API_WINUSBX"
  by (simp_all add: occupied_priv_def composite_priv_fields)

text \<open>
  C5, the claim as stated fails: slot 0 is occupied by a WinUSB (non-HID) leaf, and a HID
  candidate for the same ordinal is ignored, the call returning Access and the slot
  staying as it was; the newer data does not overwrite the slot.
\<close>

theorem set_composite_interface_non_hid_occupant_counterexample:
  "path (usb_interface occupied_priv ! 0) = Some ''path0''
   \<and> apib (usb_interface occupied_priv ! 0) = USB_API_WINUSBX
   \<and> set_composite_interface occupied_priv ''hid_path'' id_mi00 USB_API_HID (- 1) True
       = Some (LIBUSB_ERROR_ACCESS, occupied_priv, False)"
  using set_composite_interface_slot [OF occupied_priv_fields(1)
      scan_mi00 [OF example_ids(3,4), of id_post0] occupied_priv_fields(2),
      of "''hid_path''" USB_API_HID "- 1" True]
  by (simp add: occupied_priv_fields example_ids)

text \<open>
  C5, amended.  When a composite leaf is installed into a slot whose path is already
  set, the outcome depends on the new candidate only: a HID candidate is ignored (the
  call returns Access and the device is unchanged), whatever occupies the slot; any
  other candidate overwrites the slot with the newer data, whatever occupies it.
\<close>

theorem set_composite_interface_occupied_slot:
  assumes "dev_apib priv = USB_API_COMPOSITE"
    and "mi_scan dev_id 0 = Some (int n, j)" and "cstr_at dev_id j = Some c"
    and "n < length (usb_interface priv)"
    and "path (usb_interface priv ! n) \<noteq> None"
  shows "(api = USB_API_HID \<longrightarrow>
            set_composite_interface priv new_path dev_id api sub_api_no calloc_ok
              = Some (LIBUSB_ERROR_ACCESS, priv, c = CHR 0x00))
       \<and> (api \<noteq> USB_API_HID \<longrightarrow>
            set_composite_interface priv new_path dev_id api sub_api_no calloc_ok
              = Some (LIBUSB_SUCCESS, install_leaf priv n new_path api sub_api_no,
                      c = CHR 0x00)
            \<and> path (usb_interface (install_leaf priv n new_path api sub_api_no) ! n)
                = Some new_path
            \<and> apib (usb_interface (install_leaf priv n new_path api sub_api_no) ! n) = api)"
  using set_composite_interface_slot [OF assms(1-4), of new_path api sub_api_no calloc_ok]
    assms(4,5)
  by (cases "api = USB_API_HID") auto

theorem set_composite_interface_occupied_slot_witness:
  "set_composite_interface occupied_priv ''hid_path'' id_mi00 USB_API_HID (- 1) True
     = Some (LIBUSB_ERROR_ACCESS, occupied_priv, False)
   \<and> set_composite_interface occupied_priv ''newer'' id_mi00 USB_API_WINUSBX 1 True
     = Some (LIBUSB_SUCCESS, install_leaf occupied_priv 0 ''newer'' USB_API_WINUSBX 1, False)
   \<and> path (usb_interface (install_leaf occupied_priv 0 ''newer'' USB_API_WINUSBX 1) ! 0)
       = Some ''newer''"
proof -
  note sc = scan_mi00 [OF example_ids(3,4), of id_post0, folded example_ids(1)]
  have sc': "mi_scan id_mi00 0 = Some (int 0, length id_pre + 4)"
    "cstr_at id_mi00 (length id_pre + 4) = Some CHR ''0''"
    using sc by simp_all
  have occ: "path (usb_interface occupied_priv ! 0) \<noteq> None"
    by (simp add: occupied_priv_fields)
  note t = set_composite_interface_occupied_slot [OF occupied_priv_fields(1) sc'
      occupied_priv_fields(2) occ]
  from t [of USB_API_HID "''hid_path''" "- 1" True]
    t [of USB_API_WINUSBX "''newer''" 1 True]
  show ?thesis by simp
qed

subsection \<open>Auto-claim reference counts\<close>

lemma call_core_fields [simp]:
  "autoclaim_count (snd (call_core f ev st n)) = autoclaim_count st"
  "core_calls (snd (call_core f ev st n)) = core_calls st @ [ev]"
  by (simp_all add: call_core_def split_beta)

lemma auto_release_positive:
  assumes n: "unat n < USB_MAXINTERFACES" "length (autoclaim_count st) = USB_MAXINTERFACES"
    and c: "autoclaim_count st ! unat n > 0"
  shows "\<exists>st'. auto_release release st n = Some st'
      \<and> autoclaim_count st' = (autoclaim_count st)[unat n := autoclaim_count st ! unat n - 1]
      \<and> core_calls st' = core_calls st
           @ (if autoclaim_count st ! unat n = 1 then [Release (unat n)] else [])"
  using assms by (auto simp: auto_release_def Let_def)

lemma auto_release_not_positive:
  assumes "unat n < USB_MAXINTERFACES" "\<not> autoclaim_count st ! unat n > 0"
  shows "auto_release release st n = Some st"
  using assms by (simp add: auto_release_def)

lemma auto_release_times_positive:
  assumes n: "unat n < USB_MAXINTERFACES"
  shows "length (autoclaim_count st) = USB_MAXINTERFACES \<Longrightarrow>
     autoclaim_count st ! unat n = int m \<Longrightarrow> j < m \<Longrightarrow>
     \<exists>st'. auto_release_times release st n j = Some st'
       \<and> core_calls st' = core_calls st
       \<and> autoclaim_count st' ! unat n = int (m - j)
       \<and> length (autoclaim_count st') = USB_MAXINTERFACES"
proof (induction j arbitrary: st m)
  case 0
  then show ?case by simp
next
  case (Suc j)
  from Suc.prems have pos: "autoclaim_count st ! unat n > 0" and ne: "autoclaim_count st ! unat n \<noteq> 1"
    by simp_all
  from auto_release_positive [OF n Suc.prems(1) pos, of release] ne obtain st1 where
    1: "auto_release release st n = Some st1"
      "autoclaim_count st1 = (autoclaim_count st)[unat n := autoclaim_count st ! unat n - 1]"
      "core_calls st1 = core_calls st"
    by auto
  from 1(2) Suc.prems n have l1: "length (autoclaim_count st1) = USB_MAXINTERFACES"
    and c1: "autoclaim_count st1 ! unat n = int (m - 1)"
    by simp_all
  from Suc.prems have "j < m - 1" by simp
  from Suc.IH [OF l1 c1 this] 1 show ?case by auto
qed

lemma auto_release_times_last:
  assumes n: "unat n < USB_MAXINTERFACES"
  shows "length (autoclaim_count st) = USB_MAXINTERFACES \<Longrightarrow>
     autoclaim_count st ! unat n = int k \<Longrightarrow> 0 < k \<Longrightarrow>
     \<exists>st'. auto_release_times release st n k = Some st'
       \<and> core_calls st' = core_calls st @ [Release (unat n)]
       \<and> autoclaim_count st' ! unat n = 0"
proof (induction k arbitrary: st)
  case 0
  then show ?case by simp
next
  case (Suc k)
  from Suc.prems have pos: "autoclaim_count st ! unat n > 0" by simp
  from auto_release_positive [OF n Suc.prems(1) pos, of release] obtain st1 where
    1: "auto_release release st n = Some st1"
      "autoclaim_count st1 = (autoclaim_count st)[unat n := autoclaim_count st ! unat n - 1]"
      "core_calls st1 = core_calls st
           @ (if autoclaim_count st ! unat n = 1 then [Release (unat n)] else [])"
    by auto
  from 1(2) Suc.prems n have l1: "length (autoclaim_count st1) = USB_MAXINTERFACES"
    and c1: "autoclaim_count st1 ! unat n = int k"
    by simp_all
  show ?case
  proof (cases k)
    case 0
    with 1 c1 Suc.prems show ?thesis by simp
  next
    case (Suc k')
    with Suc.prems 1 have "core_calls st1 = core_calls st" by simp
    with Suc.IH [OF l1 c1] Suc 1 show ?thesis by auto
  qed
qed

lemma auto_claim_counted:
  assumes "api_type = USB_API_WINUSBX \<or> api_type = USB_API_HID"
    and "n < USB_MAXINTERFACES" and "autoclaim_count st ! n \<noteq> 0"
  shows "auto_claim claim priv st (int n) api_type
     = Some (LIBUSB_SUCCESS, int n,
             st\<lparr>autoclaim_count := (autoclaim_count st)[n := autoclaim_count st ! n + 1]\<rparr>)"
  using assms by (auto simp: auto_claim_def)



text \<open>
  The two helpers taken alone.  For an interface \<open>n\<close> of a device handle with
  counter \<open>c\<close>:
  when \<open>c\<close> is positive, \<open>auto_claim\<close> on \<open>n\<close> returns success with the counter at
  \<open>c + 1\<close> and the state otherwise as it was, so no claim reaches the core;
  \<open>auto_release\<close> leaves the counter at \<open>c - 1\<close> and calls the core's release exactly
  when \<open>c = 1\<close>; when \<open>c\<close> is not positive \<open>auto_release\<close> changes nothing.
  So of \<open>k = c\<close> successive teardowns the first \<open>j < k\<close> make no call at all, the
  counter then being \<open>k - j\<close>, and all \<open>k\<close> together make exactly one call, the release
  of \<open>n\<close>, the counter then being 0.
\<close>

lemma autoclaim_count_discipline:
  assumes n: "unat n < USB_MAXINTERFACES"
    and len: "length (autoclaim_count st) = USB_MAXINTERFACES"
  shows
    "(0 < autoclaim_count st ! unat n \<and> (api_type = USB_API_WINUSBX \<or> api_type = USB_API_HID)
        \<longrightarrow> auto_claim claim priv st (int (unat n)) api_type
          = Some (LIBUSB_SUCCESS, int (unat n),
                  st\<lparr>autoclaim_count := (autoclaim_count st)
                        [unat n := autoclaim_count st ! unat n + 1]\<rparr>)
         \<and> core_calls (st\<lparr>autoclaim_count := (autoclaim_count st)
                        [unat n := autoclaim_count st ! unat n + 1]\<rparr>) = core_calls st)
     \<and> (0 < autoclaim_count st ! unat n \<longrightarrow>
          (\<exists>st'. auto_release release st n = Some st'
             \<and> autoclaim_count st'
                 = (autoclaim_count st)[unat n := autoclaim_count st ! unat n - 1]
             \<and> core_calls st' = core_calls st
                 @ (if autoclaim_count st ! unat n = 1 then [Release (unat n)] else [])))
     \<and> (\<not> 0 < autoclaim_count st ! unat n \<longrightarrow> auto_release release st n = Some st)
     \<and> (\<forall>k. autoclaim_count st ! unat n = int k \<and> 0 < k \<longrightarrow>
          (\<forall>j<k. \<exists>st'. auto_release_times release st n j = Some st'
             \<and> core_calls st' = core_calls st
             \<and> autoclaim_count st' ! unat n = int (k - j))
          \<and> (\<exists>st'. auto_release_times release st n k = Some st'
             \<and> core_calls st' = core_calls st @ [Release (unat n)]
             \<and> autoclaim_count st' ! unat n = 0))"
proof (intro conjI impI allI)
  assume "0 < autoclaim_count st ! unat n
      \<and> (api_type = USB_API_WINUSBX \<or> api_type = USB_API_HID)"
  with auto_claim_counted [of api_type "unat n" st claim priv] n
  show "auto_claim claim priv st (int (unat n)) api_type
          = Some (LIBUSB_SUCCESS, int (unat n),
                  st\<lparr>autoclaim_count := (autoclaim_count st)
                        [unat n := autoclaim_count st ! unat n + 1]\<rparr>)"
    by simp
  show "core_calls (st\<lparr>autoclaim_count := (autoclaim_count st)
                        [unat n := autoclaim_count st ! unat n + 1]\<rparr>) = core_calls st"
    by simp
next
  assume "0 < autoclaim_count st ! unat n"
  from auto_release_positive [OF n len this]
  show "\<exists>st'. auto_release release st n = Some st'
             \<and> autoclaim_count st'
                 = (autoclaim_count st)[unat n := autoclaim_count st ! unat n - 1]
             \<and> core_calls st' = core_calls st
                 @ (if autoclaim_count st ! unat n = 1 then [Release (unat n)] else [])" .
next
  assume "\<not> 0 < autoclaim_count st ! unat n"
  with n show "auto_release release st n = Some st" by (rule auto_release_not_positive)
next
  fix k j
  assume k: "autoclaim_count st ! unat n = int k \<and> 0 < k" and j: "j < k"
  from auto_release_times_positive [OF n len, of k j release] k j
  show "\<exists>st'. auto_release_times release st n j = Some st'
             \<and> core_calls st' = core_calls st
             \<and> autoclaim_count st' ! unat n = int (k - j)"
    by blast
next
  fix k
  assume k: "autoclaim_count st ! unat n = int k \<and> 0 < k"
  from auto_release_times_last [OF n len, of k release] k
  show "\<exists>st'. auto_release_times release st n k = Some st'
             \<and> core_calls st' = core_calls st @ [Release (unat n)]
             \<and> autoclaim_count st' ! unat n = 0"
    by blast
qed

subsection \<open>Control transfer submission without a claimable interface\<close>

lemma auto_claim_loop_result:
  "auto_claim_loop claim priv api_type st i = (ci, st') \<Longrightarrow> i \<le> USB_MAXINTERFACES \<Longrightarrow>
     i \<le> ci \<and> ci \<le> USB_MAXINTERFACES
     \<and> (ci = USB_MAXINTERFACES \<longrightarrow> autoclaim_count st' = autoclaim_count st)"
proof (induction claim priv api_type st i rule: auto_claim_loop.induct)
  case (1 claim priv api_type st i)
  note sc = auto_claim_loop.simps [of claim priv api_type st i]
  show ?case
  proof (cases "i < USB_MAXINTERFACES")
    case False
    with "1.prems" show ?thesis by (simp add: sc)
  next
    case lt: True
    show ?thesis
    proof (cases "apib (usb_interface priv ! i) = api_type")
      case False
      with lt "1.prems" have "auto_claim_loop claim priv api_type st (i + 1) = (ci, st')"
        by (simp add: sc)
      from "1.IH"(2) [OF lt False this] lt show ?thesis by simp
    next
      case a: True
      obtain r st1 where c: "call_core claim (Claim i) st i = (r, st1)" by (metis surj_pair)
      then have k: "autoclaim_count st1 = autoclaim_count st"
        using call_core_fields(1) [of claim "Claim i" st i] by simp
      show ?thesis
      proof (cases "r = LIBUSB_SUCCESS")
        case True
        with lt a c "1.prems" show ?thesis by (simp add: sc)
      next
        case False
        with lt a c "1.prems" have "auto_claim_loop claim priv api_type st1 (i + 1) = (ci, st')"
          by (simp add: sc)
        from "1.IH"(1) [OF lt a c [symmetric] False this] lt k show ?thesis by simp
      qed
    qed
  qed
qed

lemma auto_claim_loop_none:
  "\<forall>i<USB_MAXINTERFACES. apib (usb_interface priv ! i) = api_type \<longrightarrow>
      (\<forall>ih b. fst (claim ih b i) \<noteq> LIBUSB_SUCCESS) \<Longrightarrow>
   fst (auto_claim_loop claim priv api_type st i) = max i USB_MAXINTERFACES"
proof (induction claim priv api_type st i rule: auto_claim_loop.induct)
  case (1 claim priv api_type st i)
  note sc = auto_claim_loop.simps [of claim priv api_type st i]
  note no = "1.prems"
  show ?case
  proof (cases "i < USB_MAXINTERFACES")
    case False
    then show ?thesis by (simp add: sc max_def)
  next
    case lt: True
    show ?thesis
    proof (cases "apib (usb_interface priv ! i) = api_type")
      case False
      with lt "1.IH"(2) [OF lt False no] show ?thesis by (simp add: sc max_def)
    next
      case a: True
      obtain r st1 where c: "call_core claim (Claim i) st i = (r, st1)" by (metis surj_pair)
      have "r = fst (claim (interface_handle st) (os_state st) i)"
        using c by (simp add: call_core_def split_beta)
      with no lt a have f: "r \<noteq> LIBUSB_SUCCESS" by simp
      from "1.IH"(1) [OF lt a c [symmetric] f no] lt
      have "fst (auto_claim_loop claim priv api_type st1 (i + 1)) = USB_MAXINTERFACES"
        by (simp add: max_def)
      with lt a c f show ?thesis by (simp add: sc max_def)
    qed
  qed
qed


lemma auto_claim_failure:
  assumes "auto_claim claim priv st ci api_type = Some (r, ci', st')" "r \<noteq> LIBUSB_SUCCESS"
  shows "autoclaim_count st' = autoclaim_count st"
proof (cases "api_type \<noteq> USB_API_WINUSBX \<and> api_type \<noteq> USB_API_HID")
  case True
  with assms show ?thesis by (simp add: auto_claim_def)
next
  case api: False
  show ?thesis
  proof (cases "ci < 0")
    case True
    obtain k st1 where l: "auto_claim_loop claim priv api_type st 0 = (k, st1)"
      by (metis surj_pair)
    with assms api True have "k = USB_MAXINTERFACES" "st' = st1"
      by (auto simp: auto_claim_def split: if_splits)
    with auto_claim_loop_result [OF l] show ?thesis by simp
  next
    case False
    with assms api show ?thesis by (auto simp: auto_claim_def split: if_splits)
  qed
qed

lemma auto_claim_none_claimable:
  assumes "api_type = USB_API_WINUSBX \<or> api_type = USB_API_HID" "ci < 0"
    and "\<forall>i<USB_MAXINTERFACES. apib (usb_interface priv ! i) = api_type \<longrightarrow>
      (\<forall>ih b. fst (claim ih b i) \<noteq> LIBUSB_SUCCESS)"
  shows "\<exists>st'. auto_claim claim priv st ci api_type
      = Some (LIBUSB_ERROR_NOT_FOUND, int USB_MAXINTERFACES, st')
    \<and> autoclaim_count st' = autoclaim_count st"
proof -
  obtain k st1 where l: "auto_claim_loop claim priv api_type st 0 = (k, st1)"
    by (metis surj_pair)
  from auto_claim_loop_none [OF assms(3), of st 0] l have k: "k = USB_MAXINTERFACES" by simp
  with auto_claim_loop_result [OF l] have "autoclaim_count st1 = autoclaim_count st" by simp
  with assms(1,2) l k show ?thesis by (auto simp: auto_claim_def)
qed

text \<open>
  C9.  When the WinUSB-like library is initialised, the data stage is not longer than
  the control buffer limit, no interface of the backend has valid handles
  (\<open>get_valid_interface\<close> is negative) and no claim of an interface of the backend
  succeeds, the submission returns Not-Found and leaves every auto-claim counter as it
  was.  Moreover every submission that returns Not-Found leaves the counters as they
  were.
\<close>

theorem winusbx_submit_control_transfer_not_found:
  "(WinUSBX_initialized os (if sub_api_arg = SUB_API_NOTSET then dev_sub_api priv else sub_api_arg)
    \<and> nat ((xfer_length itransfer - 8) mod 2 ^ 32) \<le> MAX_CTRL_BUFFER_LENGTH
    \<and> get_valid_interface priv st USB_API_WINUSBX < 0
    \<and> (\<forall>i<USB_MAXINTERFACES. apib (usb_interface priv ! i) = USB_API_WINUSBX \<longrightarrow>
          (\<forall>ih b. fst (claim ih b i) \<noteq> LIBUSB_SUCCESS)) \<longrightarrow>
    (\<exists>st'. winusbx_submit_control_transfer os claim sub_api_arg priv st itransfer
        = Some (LIBUSB_ERROR_NOT_FOUND, st',
                itransfer\<lparr>transfer_priv := (transfer_priv itransfer)\<lparr>pollable_fd := None\<rparr>\<rparr>)
      \<and> autoclaim_count st' = autoclaim_count st))
   \<and> (\<forall>st' it'. winusbx_submit_control_transfer os claim sub_api_arg priv st itransfer
          = Some (LIBUSB_ERROR_NOT_FOUND, st', it') \<longrightarrow>
        autoclaim_count st' = autoclaim_count st)"
proof (intro conjI impI allI)
  assume h: "WinUSBX_initialized os
      (if sub_api_arg = SUB_API_NOTSET then dev_sub_api priv else sub_api_arg)
    \<and> nat ((xfer_length itransfer - 8) mod 2 ^ 32) \<le> MAX_CTRL_BUFFER_LENGTH
    \<and> get_valid_interface priv st USB_API_WINUSBX < 0
    \<and> (\<forall>i<USB_MAXINTERFACES. apib (usb_interface priv ! i) = USB_API_WINUSBX \<longrightarrow>
          (\<forall>ih b. fst (claim ih b i) \<noteq> LIBUSB_SUCCESS))"
  then obtain st' where a: "auto_claim claim priv st (get_valid_interface priv st USB_API_WINUSBX)
        USB_API_WINUSBX = Some (LIBUSB_ERROR_NOT_FOUND, int USB_MAXINTERFACES, st')"
      "autoclaim_count st' = autoclaim_count st"
    using auto_claim_none_claimable [of USB_API_WINUSBX
        "get_valid_interface priv st USB_API_WINUSBX" priv claim st]
    by auto
  with h show "\<exists>st'. winusbx_submit_control_transfer os claim sub_api_arg priv st itransfer
        = Some (LIBUSB_ERROR_NOT_FOUND, st',
                itransfer\<lparr>transfer_priv := (transfer_priv itransfer)\<lparr>pollable_fd := None\<rparr>\<rparr>)
      \<and> autoclaim_count st' = autoclaim_count st"
    by (simp add: winusbx_submit_control_transfer_def Let_def)
next
  fix st' :: "'a handle_state" and it' :: usbi_transfer
  assume r: "winusbx_submit_control_transfer os claim sub_api_arg priv st itransfer
          = Some (LIBUSB_ERROR_NOT_FOUND, st', it')"
  let ?ci = "get_valid_interface priv st USB_API_WINUSBX"
  show "autoclaim_count st' = autoclaim_count st"
  proof (cases "?ci < 0")
    case False
    with r show ?thesis
      by (auto simp: winusbx_submit_control_transfer_def Let_def
          split: if_splits option.splits io_outcome.splits)
  next
    case True
    from r True obtain rr ci' st1 where
      a: "auto_claim claim priv st ?ci USB_API_WINUSBX = Some (rr, ci', st1)"
      by (cases "auto_claim claim priv st ?ci USB_API_WINUSBX")
         (auto simp: winusbx_submit_control_transfer_def Let_def split: if_splits)
    show ?thesis
    proof (cases "rr = LIBUSB_SUCCESS")
      case False
      with r True a have "st' = st1"
        by (auto simp: winusbx_submit_control_transfer_def Let_def split: if_splits)
      with auto_claim_failure [OF a False] show ?thesis by simp
    next
      case True
      with r \<open>?ci < 0\<close> a show ?thesis
        by (auto simp: winusbx_submit_control_transfer_def Let_def
            split: if_splits option.splits io_outcome.splits)
    qed
  qed
qed

lemma get_valid_interface_loop_none:
  "\<forall>i<USB_MAXINTERFACES. api_handle (interface_handle st ! i) = 0 \<Longrightarrow>
   get_valid_interface_loop priv st api_id i = - 1"
proof (induction priv st api_id i rule: get_valid_interface_loop.induct)
  case (1 priv st api_id i)
  show ?case
  proof (cases "i < USB_MAXINTERFACES")
    case True
    with "1.prems" have "api_handle (interface_handle st ! i) = 0" by simp
    with True "1.IH" "1.prems" show ?thesis
      by (subst get_valid_interface_loop.simps) simp
  next
    case False
    then show ?thesis by (subst get_valid_interface_loop.simps) simp
  qed
qed

lemma example_handle_fields:
  "length (autoclaim_count example_handle) = USB_MAXINTERFACES"
  "autoclaim_count example_handle ! 0 = 2"
  "core_calls example_handle = []"
  "i < USB_MAXINTERFACES \<Longrightarrow> api_handle (interface_handle example_handle ! i) = 0"
  by (simp_all add: example_handle_def USB_MAXINTERFACES_def)

lemma autoclaim_count_discipline_example:
  "auto_claim core_ok fresh_priv example_handle 0 USB_API_WINUSBX
     = Some (LIBUSB_SUCCESS, 0,
             example_handle\<lparr>autoclaim_count := (autoclaim_count example_handle)[0 := 3]\<rparr>)
   \<and> (\<exists>st'. auto_release core_ok example_handle 0 = Some st'
         \<and> autoclaim_count st' ! 0 = 1 \<and> core_calls st' = [])
   \<and> (\<exists>st'. auto_release_times core_ok example_handle 0 1 = Some st'
         \<and> autoclaim_count st' ! 0 = 1 \<and> core_calls st' = [])
   \<and> (\<exists>st'. auto_release_times core_ok example_handle 0 2 = Some st'
         \<and> autoclaim_count st' ! 0 = 0 \<and> core_calls st' = [Release 0])"
proof -
  have n: "unat (0 :: byte) < USB_MAXINTERFACES" by (simp add: USB_MAXINTERFACES_def)
  note t = autoclaim_count_discipline [OF n example_handle_fields(1),
      of USB_API_WINUSBX core_ok fresh_priv core_ok]
  have 1: "auto_claim core_ok fresh_priv example_handle 0 USB_API_WINUSBX
     = Some (LIBUSB_SUCCESS, 0,
             example_handle\<lparr>autoclaim_count := (autoclaim_count example_handle)[0 := 3]\<rparr>)"
    using t [THEN conjunct1] by (simp add: example_handle_fields)
  have 2: "\<exists>st'. auto_release core_ok example_handle 0 = Some st'
         \<and> autoclaim_count st' ! 0 = 1 \<and> core_calls st' = []"
    using t [THEN conjunct2, THEN conjunct1]
    by (auto simp add: example_handle_fields example_handle_def)
  from t [THEN conjunct2, THEN conjunct2, THEN conjunct2, rule_format, of 2]
  have 3: "(\<forall>j<2. \<exists>st'. auto_release_times core_ok example_handle 0 j = Some st'
             \<and> core_calls st' = []
             \<and> autoclaim_count st' ! 0 = int (2 - j))
          \<and> (\<exists>st'. auto_release_times core_ok example_handle 0 2 = Some st'
             \<and> core_calls st' = [Release 0]
             \<and> autoclaim_count st' ! 0 = 0)"
    by (simp add: example_handle_fields)
  from 3 [THEN conjunct1, rule_format, of 1]
  have 4: "\<exists>st'. auto_release_times core_ok example_handle 0 1 = Some st'
         \<and> autoclaim_count st' ! 0 = 1 \<and> core_calls st' = []"
    by auto
  from 1 2 3 4 show ?thesis by blast
qed

theorem winusbx_submit_control_transfer_not_found_witness:
  "get_valid_interface example_winusb_priv example_handle USB_API_WINUSBX < 0
   \<and> (\<exists>st'. winusbx_submit_control_transfer example_submit_os core_busy SUB_API_NOTSET
          example_winusb_priv example_handle example_transfer
        = Some (LIBUSB_ERROR_NOT_FOUND, st',
                example_transfer\<lparr>transfer_priv :=
                  (transfer_priv example_transfer)\<lparr>pollable_fd := None\<rparr>\<rparr>)
      \<and> autoclaim_count st' = autoclaim_count example_handle)"
proof -
  have v: "get_valid_interface example_winusb_priv example_handle USB_API_WINUSBX < 0"
    using get_valid_interface_loop_none [of example_handle example_winusb_priv
        USB_API_WINUSBX 0]
    by (simp add: get_valid_interface_def example_handle_fields)
  from winusbx_submit_control_transfer_not_found [of example_submit_os SUB_API_NOTSET
      example_winusb_priv example_transfer example_handle core_busy, THEN conjunct1] v
  show ?thesis
    by (simp add: example_submit_os_def example_transfer_def MAX_CTRL_BUFFER_LENGTH_def
        core_busy_def)
qed

subsection \<open>Transfer completion\<close>





















subsection \<open>Two control transfers in flight on one handle\<close>

lemma get_valid_interface_loop_invalid:
  "\<forall>i<USB_MAXINTERFACES. api_handle (interface_handle st ! i) = 0
      \<or> api_handle (interface_handle st ! i) = INVALID_HANDLE_VALUE \<Longrightarrow>
   get_valid_interface_loop priv st api_id i = - 1"
proof (induction priv st api_id i rule: get_valid_interface_loop.induct)
  case (1 priv st api_id i)
  show ?case
  proof (cases "i < USB_MAXINTERFACES")
    case True
    with "1.prems" have "api_handle (interface_handle st ! i) = 0
      \<or> api_handle (interface_handle st ! i) = INVALID_HANDLE_VALUE" by simp
    with True "1.IH" "1.prems" show ?thesis
      by (subst get_valid_interface_loop.simps) auto
  next
    case False
    then show ?thesis by (subst get_valid_interface_loop.simps) simp
  qed
qed

lemma get_valid_interface_opened:
  "get_valid_interface example_winusb_priv opened_handle USB_API_WINUSBX = - 1"
  using get_valid_interface_loop_none [of opened_handle example_winusb_priv USB_API_WINUSBX 0]
  by (simp add: get_valid_interface_def opened_handle_def USB_MAXINTERFACES_def)

lemma get_valid_interface_claimed:
  "get_valid_interface example_winusb_priv claimed_handle USB_API_WINUSBX = 0"
  by (simp add: get_valid_interface_def get_valid_interface_loop.simps [of _ _ _ 0]
      claimed_handle_def example_winusb_priv_def fresh_priv_def INVALID_HANDLE_VALUE_def
      USB_MAXINTERFACES_def unset_interface_def)

lemma get_valid_interface_released:
  "get_valid_interface example_winusb_priv released_handle USB_API_WINUSBX = - 1"
  using get_valid_interface_loop_invalid [of released_handle example_winusb_priv
      USB_API_WINUSBX 0]
  by (simp add: get_valid_interface_def released_handle_def USB_MAXINTERFACES_def
      nth_list_update)

lemma auto_claim_opened:
  "auto_claim winusb_core_claim example_winusb_priv opened_handle (- 1) USB_API_WINUSBX
   = Some (LIBUSB_SUCCESS, 0, claimed_handle)"
  by (simp add: auto_claim_def auto_claim_loop.simps [of _ _ _ _ 0] call_core_def
      winusb_core_claim_def opened_handle_def claimed_handle_def example_winusb_priv_def
      fresh_priv_def USB_MAXINTERFACES_def unset_interface_def)

lemma submit_on_opened:
  "winusbx_submit_control_transfer example_submit_os winusb_core_claim SUB_API_NOTSET
     example_winusb_priv opened_handle example_transfer
   = Some (LIBUSB_SUCCESS, claimed_handle, pending_transfer)"
  by (simp add: winusbx_submit_control_transfer_def get_valid_interface_opened
      auto_claim_opened Let_def example_submit_os_def MAX_CTRL_BUFFER_LENGTH_def
      USB_MAXINTERFACES_def)
     (simp add: example_transfer_def pending_transfer_def claimed_handle_def)

lemma submit_on_claimed:
  "winusbx_submit_control_transfer example_submit_os winusb_core_claim SUB_API_NOTSET
     example_winusb_priv claimed_handle example_transfer
   = Some (LIBUSB_SUCCESS, claimed_handle, pending_transfer)"
  by (simp add: winusbx_submit_control_transfer_def get_valid_interface_claimed Let_def
      example_submit_os_def MAX_CTRL_BUFFER_LENGTH_def USB_MAXINTERFACES_def)
     (simp add: example_transfer_def pending_transfer_def claimed_handle_def)

lemma replicate_update_zero:
  "(replicate 32 (0::int))[0 := 0] = replicate 32 0"
  by (simp add: list_eq_iff_nth_eq nth_list_update)

lemma clear_on_claimed:
  "windows_clear_transfer_priv winusb_core_release claimed_handle pending_transfer
   = Some (released_handle, example_transfer)"
  by (simp add: windows_clear_transfer_priv_def auto_release_def call_core_def
      winusb_core_release_def claimed_handle_def released_handle_def pending_transfer_def
      example_transfer_def USB_MAXINTERFACES_def Let_def replicate_update_zero)

lemma clear_on_released:
  "windows_clear_transfer_priv winusb_core_release released_handle pending_transfer
   = Some (released_handle, example_transfer)"
  by (simp add: windows_clear_transfer_priv_def auto_release_def call_core_def
      winusb_core_release_def released_handle_def pending_transfer_def
      example_transfer_def USB_MAXINTERFACES_def Let_def)

text \<open>
  C1, the code on two control transfers in flight on one handle.  The first
  submission finds no valid interface, auto-claims interface 0 (one claim reaches the
  core) and leaves its counter at 1.  The second submission finds interface 0 valid,
  so it does not call \<open>auto_claim\<close>: its transfer is bound to interface 0 and the
  counter stays at 1.  The teardown of one of the two transfers then takes the counter
  to 0 and releases the interface through the core, while the other transfer is still
  in flight on it and no interface of the handle is valid any more; the teardown of
  that other transfer decrements nothing and makes no call.
\<close>

theorem second_control_transfer_not_counted:
  "winusbx_submit_control_transfer example_submit_os winusb_core_claim SUB_API_NOTSET
     example_winusb_priv opened_handle example_transfer
   = Some (LIBUSB_SUCCESS, claimed_handle, pending_transfer)
   \<and> winusbx_submit_control_transfer example_submit_os winusb_core_claim SUB_API_NOTSET
       example_winusb_priv claimed_handle example_transfer
     = Some (LIBUSB_SUCCESS, claimed_handle, pending_transfer)
   \<and> autoclaim_count claimed_handle ! 0 = 1
   \<and> core_calls claimed_handle = [Claim 0]
   \<and> interface_number (transfer_priv pending_transfer) = 0
   \<and> windows_clear_transfer_priv winusb_core_release claimed_handle pending_transfer
     = Some (released_handle, example_transfer)
   \<and> autoclaim_count released_handle ! 0 = 0
   \<and> core_calls released_handle = [Claim 0, Release 0]
   \<and> get_valid_interface example_winusb_priv released_handle USB_API_WINUSBX = - 1
   \<and> windows_clear_transfer_priv winusb_core_release released_handle pending_transfer
     = Some (released_handle, example_transfer)"
  by (simp add: submit_on_opened submit_on_claimed clear_on_claimed clear_on_released
      get_valid_interface_released)
     (simp add: claimed_handle_def released_handle_def pending_transfer_def)

subsection \<open>A marker that follows an M\<close>




subsection \<open>The hash table: entering a string twice\<close>






lemma htab_hval_update [simp]:
  "htab_hval (t\<lparr>htab_table := tb, htab_filled := n\<rparr>) s = htab_hval t s"
  by (simp add: htab_hval_def Let_def)













lemma main_hash_A: "main_hash ''A'' = 177638"
  by (simp add: main_hash_def hash_step_def char_int_def)

lemma htab_hval_A: "htab_hval example_htab ''A'' = 3"
  by (simp add: htab_hval_def main_hash_A example_htab_def)

lemma htab_search_A: "htab_search 5 example_htab ''A'' = Some (Slot 3)"
  by (simp add: htab_search_def htab_hval_A Let_def) (simp add: example_htab_def)

lemma htab_hash_A:
  "htab_hash 5 True example_htab (Some ''A'') = Some (3, example_htab_one)"
  by (simp add: htab_hash_def htab_search_A htab_hval_A)
     (simp add: example_htab_def example_htab_one_def)










end
